theory Spec2Isabelle
  imports Main
begin

section \<open>Go strings\<close>

text \<open>
  A Go string is a sequence of bytes, and so is an Isabelle \<open>string\<close>. The functions of
  package \<open>strings\<close> that the validators and the importer call are written out here as
  the standard library defines them, on bytes.
\<close>

definition HasPrefix :: "string \<Rightarrow> string \<Rightarrow> bool" where
  "HasPrefix s p = (length p \<le> length s \<and> take (length p) s = p)"

definition HasSuffix :: "string \<Rightarrow> string \<Rightarrow> bool" where
  "HasSuffix s x = (length x \<le> length s \<and> drop (length s - length x) s = x)"

fun Contains :: "string \<Rightarrow> string \<Rightarrow> bool" where
  "Contains [] sub = (sub = [])"
| "Contains (c # cs) sub = (HasPrefix (c # cs) sub \<or> Contains cs sub)"

text \<open>\<open>strings.Count(s, "/")\<close> and \<open>strings.Index(s, "/")\<close>, for a separator of one byte.\<close>

definition Count :: "string \<Rightarrow> char \<Rightarrow> nat" where
  "Count s sep = length (filter (\<lambda>c. c = sep) s)"

fun Index :: "string \<Rightarrow> char \<Rightarrow> nat option" where
  "Index [] sep = None"
| "Index (c # cs) sep = (if c = sep then Some 0 else map_option Suc (Index cs sep))"

text \<open>\<open>strings.Split(s, ".")\<close>: the empty string splits into one empty part.\<close>

fun Split :: "string \<Rightarrow> char \<Rightarrow> string list" where
  "Split [] sep = [[]]"
| "Split (c # cs) sep =
     (if c = sep then [] # Split cs sep
      else (case Split cs sep of [] \<Rightarrow> [[c]] | p # ps \<Rightarrow> (c # p) # ps))"

text \<open>\<open>strings.SplitN(s, "/", 2)\<close>: cut at the first separator, if there is one.\<close>

definition SplitN2 :: "string \<Rightarrow> char \<Rightarrow> string list" where
  "SplitN2 s sep = (case Index s sep of None \<Rightarrow> [s] | Some i \<Rightarrow> [take i s, drop (Suc i) s])"

fun Join :: "string list \<Rightarrow> string \<Rightarrow> string" where
  "Join [] sep = []"
| "Join [p] sep = p"
| "Join (p # ps) sep = p @ sep @ Join ps sep"

text \<open>
  \<open>strings.TrimSpace\<close> removes the leading and the trailing white space of a string, as
  Unicode defines it: the code points \<open>unicode.IsSpace\<close> accepts, here in their UTF-8
  encodings (U+0009 to U+000D, U+0020, U+0085, U+00A0, U+1680, U+2000 to U+200A, U+2028,
  U+2029, U+202F, U+205F, U+3000).
\<close>

definition space_runes :: "string list" where
  "space_runes =
    [[CHR 0x09], [CHR 0x0A], [CHR 0x0B], [CHR 0x0C], [CHR 0x0D], [CHR 0x20],
     [CHR 0xC2, CHR 0x85], [CHR 0xC2, CHR 0xA0], [CHR 0xE1, CHR 0x9A, CHR 0x80],
     [CHR 0xE2, CHR 0x80, CHR 0x80], [CHR 0xE2, CHR 0x80, CHR 0x81], [CHR 0xE2, CHR 0x80, CHR 0x82],
     [CHR 0xE2, CHR 0x80, CHR 0x83], [CHR 0xE2, CHR 0x80, CHR 0x84], [CHR 0xE2, CHR 0x80, CHR 0x85],
     [CHR 0xE2, CHR 0x80, CHR 0x86], [CHR 0xE2, CHR 0x80, CHR 0x87], [CHR 0xE2, CHR 0x80, CHR 0x88],
     [CHR 0xE2, CHR 0x80, CHR 0x89], [CHR 0xE2, CHR 0x80, CHR 0x8A], [CHR 0xE2, CHR 0x80, CHR 0xA8],
     [CHR 0xE2, CHR 0x80, CHR 0xA9], [CHR 0xE2, CHR 0x80, CHR 0xAF], [CHR 0xE2, CHR 0x81, CHR 0x9F],
     [CHR 0xE3, CHR 0x80, CHR 0x80]]"

text \<open>The number of bytes of the white-space rune a string starts (ends) with, 0 if none.\<close>

definition leading_space :: "string \<Rightarrow> nat" where
  "leading_space s = (case find (HasPrefix s) space_runes of None \<Rightarrow> 0 | Some r \<Rightarrow> length r)"

definition trailing_space :: "string \<Rightarrow> nat" where
  "trailing_space s = (case find (HasSuffix s) space_runes of None \<Rightarrow> 0 | Some r \<Rightarrow> length r)"

lemma space_runes_nonempty: "r \<in> set space_runes \<Longrightarrow> r \<noteq> []"
  by (auto simp: space_runes_def)

lemma leading_space_le: "leading_space s \<noteq> 0 \<Longrightarrow> 0 < length s"
  by (auto simp: leading_space_def HasPrefix_def find_Some_iff split: option.splits
      dest!: nth_mem space_runes_nonempty)

lemma trailing_space_le: "trailing_space s \<noteq> 0 \<Longrightarrow> 0 < length s"
  by (auto simp: trailing_space_def HasSuffix_def find_Some_iff split: option.splits
      dest!: nth_mem space_runes_nonempty)

function TrimLeft :: "string \<Rightarrow> string" where
  "TrimLeft s = (if leading_space s = 0 then s else TrimLeft (drop (leading_space s) s))"
  by pat_completeness auto
termination
  by (relation "measure length") (use leading_space_le in force)+

function TrimRight :: "string \<Rightarrow> string" where
  "TrimRight s =
     (if trailing_space s = 0 then s else TrimRight (take (length s - trailing_space s) s))"
  by pat_completeness auto
termination
  by (relation "measure length") (use trailing_space_le in force)+

definition TrimSpace :: "string \<Rightarrow> string" where
  "TrimSpace s = TrimRight (TrimLeft s)"

section \<open>Errors\<close>

text \<open>
  The package-level error values the validators return or wrap. An error is one of them, an
  error of a collaborator outside the validators (the standard library, the storage
  service), or \<open>fmt.Errorf(format, args...)\<close>, kept as the format with its arguments.
  An argument is a string (\<open>S\<close>), an integer (\<open>D\<close>), a slice of strings (\<open>V\<close>), the
  error wrapped by the verb \<open>%w\<close> (\<open>W\<close>), an error that is only printed (\<open>E\<close>), the
  result of \<open>fmt.Sprintf(format, args...)\<close> (\<open>F\<close>) or a slice of such results (\<open>L\<close>).
  A function that returns \<open>error\<close> returns an \<open>error option\<close> here, \<open>None\<close> for
  \<open>nil\<close>.
\<close>

datatype sentinel =
    ErrInvalidRepositoryURL
  | ErrInvalidSubfolderPath
  | ErrPackageNameHasSpaces
  | ErrReservedVersionString
  | ErrVersionLooksLikeRange
  | ErrNamedArgumentNameRequired
  | ErrInvalidNamedArgumentName
  | ErrArgumentValueStartsWithName
  | ErrArgumentDefaultStartsWithName
  | ErrInvalidRemoteURL
  | ErrMultipleSlashesInServerName
  | ErrInvalidServerNameFormat

datatype error =
    Sentinel sentinel
  | External string
  | Errorf string "fmtarg list"
and fmtarg =
    S string
  | D nat
  | V "string list"
  | W error
  | E error
  | F string "fmtarg list"
  | L "fmtarg list"

text \<open>\<open>errors.Is(err, target)\<close> for a target that is one of the package-level values.\<close>

fun errors_Is :: "error \<Rightarrow> sentinel \<Rightarrow> bool"
  and arg_Is :: "fmtarg \<Rightarrow> sentinel \<Rightarrow> bool" where
  "errors_Is (Sentinel t) target = (t = target)"
| "errors_Is (External m) target = False"
| "errors_Is (Errorf f args) target = list_ex (\<lambda>a. arg_Is a target) args"
| "arg_Is (W e) target = errors_Is e target"
| "arg_Is (S s) target = False"
| "arg_Is (D n) target = False"
| "arg_Is (V xs) target = False"
| "arg_Is (E e) target = False"
| "arg_Is (F f args) target = False"
| "arg_Is (L xs) target = False"

text \<open>
  A sequence of checks that returns the first error: the shape of every function below
  that runs \<open>if err := check(...); err != nil { return err }\<close> again and again.
\<close>

fun first_error :: "error option list \<Rightarrow> error option" where
  "first_error [] = None"
| "first_error (None # cs) = first_error cs"
| "first_error (Some e # cs) = Some e"

section \<open>Regular expressions\<close>

text \<open>
  The patterns of \<open>validators.go\<close> are compiled by Go's \<open>regexp\<close>. Every one of them is
  anchored at both ends (\<open>^...$\<close>, without flags: \<open>$\<close> is the end of the text) and uses
  classes of ASCII characters only, so \<open>MatchString\<close> decides whether the whole byte
  string belongs to the language of the pattern. A pattern is kept as its syntax tree; a
  class is a list of ranges, as it is written between the brackets.
\<close>

datatype rexp =
    Nothing
  | Eps
  | Class "(char \<times> char) list"
  | Seq rexp rexp
  | Alt rexp rexp
  | Star rexp

definition in_class :: "char \<Rightarrow> (char \<times> char) list \<Rightarrow> bool" where
  "in_class c rs =
     list_ex (\<lambda>(lo, hi). (of_char lo :: nat) \<le> of_char c \<and> (of_char c :: nat) \<le> of_char hi) rs"

fun nullable :: "rexp \<Rightarrow> bool" where
  "nullable Nothing = False"
| "nullable Eps = True"
| "nullable (Class rs) = False"
| "nullable (Seq r s) = (nullable r \<and> nullable s)"
| "nullable (Alt r s) = (nullable r \<or> nullable s)"
| "nullable (Star r) = True"

fun deriv :: "char \<Rightarrow> rexp \<Rightarrow> rexp" where
  "deriv c Nothing = Nothing"
| "deriv c Eps = Nothing"
| "deriv c (Class rs) = (if in_class c rs then Eps else Nothing)"
| "deriv c (Seq r s) =
     (if nullable r then Alt (Seq (deriv c r) s) (deriv c s) else Seq (deriv c r) s)"
| "deriv c (Alt r s) = Alt (deriv c r) (deriv c s)"
| "deriv c (Star r) = Seq (deriv c r) (Star r)"

fun MatchString :: "rexp \<Rightarrow> string \<Rightarrow> bool" where
  "MatchString r [] = nullable r"
| "MatchString r (c # cs) = MatchString (deriv c r) cs"

text \<open>The language of a pattern, which the matcher is proved to decide.\<close>

inductive_set star :: "string set \<Rightarrow> string set" for L :: "string set" where
  star_empty: "[] \<in> star L"
| star_step: "u \<in> L \<Longrightarrow> v \<in> star L \<Longrightarrow> u @ v \<in> star L"

fun lang :: "rexp \<Rightarrow> string set" where
  "lang Nothing = {}"
| "lang Eps = {[]}"
| "lang (Class rs) = {[c] | c. in_class c rs}"
| "lang (Seq r s) = {u @ v | u v. u \<in> lang r \<and> v \<in> lang s}"
| "lang (Alt r s) = lang r \<union> lang s"
| "lang (Star r) = star (lang r)"

text \<open>The derived operators: \<open>r+\<close>, \<open>r?\<close>, a literal, \<open>r1|...|rn\<close>, \<open>r1...rn\<close>, \<open>r{0,n}\<close>.\<close>

definition Plus :: "rexp \<Rightarrow> rexp" where
  "Plus r = Seq r (Star r)"

definition Opt :: "rexp \<Rightarrow> rexp" where
  "Opt r = Alt r Eps"

fun Lit :: "string \<Rightarrow> rexp" where
  "Lit [] = Eps"
| "Lit (c # cs) = Seq (Class [(c, c)]) (Lit cs)"

fun Alts :: "rexp list \<Rightarrow> rexp" where
  "Alts [] = Nothing"
| "Alts [r] = r"
| "Alts (r # rs) = Alt r (Alts rs)"

fun Seqs :: "rexp list \<Rightarrow> rexp" where
  "Seqs [] = Eps"
| "Seqs [r] = r"
| "Seqs (r # rs) = Seq r (Seqs rs)"

fun RepUpTo :: "nat \<Rightarrow> rexp \<Rightarrow> rexp" where
  "RepUpTo 0 r = Eps"
| "RepUpTo (Suc n) r = Opt (Seq r (RepUpTo n r))"

text \<open>\<open>\d\<close> is \<open>[0-9]\<close> and \<open>\s\<close> is \<open>[\t\n\f\r ]\<close> in Go's syntax.\<close>

definition digit :: rexp where
  "digit = Class [(CHR ''0'', CHR ''9'')]"

definition space :: rexp where
  "space = Class [(CHR 0x09, CHR 0x0A), (CHR 0x0C, CHR 0x0D), (CHR '' '', CHR '' '')]"

text \<open>\<open>[a-zA-Z0-9]\<close>, \<open>[a-zA-Z0-9.-]\<close> and \<open>[a-zA-Z0-9._-]\<close>.\<close>

definition alnum :: "(char \<times> char) list" where
  "alnum = [(CHR ''a'', CHR ''z''), (CHR ''A'', CHR ''Z''), (CHR ''0'', CHR ''9'')]"

definition namespacePattern :: rexp where
  "namespacePattern =
     Seqs [Class alnum, Star (Class (alnum @ [(CHR ''.'', CHR ''.''), (CHR ''-'', CHR ''-'')])),
           Class alnum]"

definition namePartPattern :: rexp where
  "namePartPattern =
     Seqs [Class alnum,
           Star (Class (alnum @ [(CHR ''.'', CHR ''.''), (CHR ''_'', CHR ''_''), (CHR ''-'', CHR ''-'')])),
           Class alnum]"

definition namespaceRegex :: rexp where
  "namespaceRegex = namespacePattern"

definition namePartRegex :: rexp where
  "namePartRegex = namePartPattern"

definition serverNameRegex :: rexp where
  "serverNameRegex = Seqs [namespacePattern, Lit ''/'', namePartPattern]"

text \<open>
  The four range patterns repeat one fragment, a version with an optional prerelease:
  \<open>v?\d+(?:\.\d+){0,3}(?:-[0-9A-Za-z.-]+)?\<close>.
\<close>

definition prerelease :: rexp where
  "prerelease =
     Seq (Lit ''-'')
       (Plus (Class [(CHR ''0'', CHR ''9''), (CHR ''A'', CHR ''Z''), (CHR ''a'', CHR ''z''),
                     (CHR ''.'', CHR ''.''), (CHR ''-'', CHR ''-'')]))"

definition versionFragment :: rexp where
  "versionFragment =
     Seqs [Opt (Lit ''v''), Plus digit, RepUpTo 3 (Seq (Lit ''.'') (Plus digit)), Opt prerelease]"

text \<open>\<open>^\s*(?:\^|~|>=|<=|>|<|=)\s*v?\d+(?:\.\d+){0,3}(?:-[0-9A-Za-z.-]+)?\s*$\<close>\<close>

definition comparatorRangeRe :: rexp where
  "comparatorRangeRe =
     Seqs [Star space,
           Alts [Lit ''^'', Lit ''~'', Lit ''>='', Lit ''<='', Lit ''>'', Lit ''<'', Lit ''=''],
           Star space, versionFragment, Star space]"

text \<open>\<open>^\s*v?\d+(...){0,3}(...)?\s-\s*v?\d+(...){0,3}(...)?\s*$\<close>\<close>

definition hyphenRangeRe :: rexp where
  "hyphenRangeRe =
     Seqs [Star space, versionFragment, space, Lit ''-'', Star space, versionFragment, Star space]"

text \<open>\<open>^\s*(?:v?\d+(...){0,3}(...)?\s*)(?:\|\|\s*v?\d+(...){0,3}(...)?\s*)+$\<close>\<close>

definition orRangeRe :: rexp where
  "orRangeRe =
     Seqs [Star space, Seq versionFragment (Star space),
           Plus (Seqs [Lit ''||'', Star space, versionFragment, Star space])]"

text \<open>\<open>^\s*(?:v?\d+|x|X|\*)(?:\.(?:\d+|x|X|\*)){1,2}(?:-[0-9A-Za-z.-]+)?\s*$\<close>\<close>

definition wildcard :: rexp where
  "wildcard = Alts [Lit ''x'', Lit ''X'', Lit ''*'']"

definition dottedVersionLikeRe :: rexp where
  "dottedVersionLikeRe =
     Seqs [Star space, Alt (Seq (Opt (Lit ''v'')) (Plus digit)) wildcard,
           Seq (Seq (Lit ''.'') (Alt (Plus digit) wildcard))
               (RepUpTo 1 (Seq (Lit ''.'') (Alt (Plus digit) wildcard))),
           Opt prerelease, Star space]"

text \<open>
  The pattern of the plain dotted numeric versions, \<open>^\d+(\.\d+){0,3}$\<close>. It is not a
  pattern of the code: the specification names it as the set of versions that pass.
\<close>

definition plainVersionRe :: rexp where
  "plainVersionRe = Seq (Plus digit) (RepUpTo 3 (Seq (Lit ''.'') (Plus digit)))"

text \<open>
  The dotted versions of two or three segments, each a number or a wildcard,
  \<open>(\d+|x|X|\*)(\.(\d+|x|X|\*)){1,2}\<close>, and the strings that hold a wildcard character.
  Neither is a pattern of the code: they name the wildcard versions of which the
  specification says that they are rejected.
\<close>

definition segment :: rexp where
  "segment = Alt (Plus digit) wildcard"

definition wildcardVersionRe :: rexp where
  "wildcardVersionRe =
     Seq segment (Seq (Seq (Lit ''.'') segment) (RepUpTo 1 (Seq (Lit ''.'') segment)))"

definition has_wildcard :: "string \<Rightarrow> bool" where
  "has_wildcard v = (Contains v ''x'' \<or> Contains v ''X'' \<or> Contains v ''*'')"

section \<open>Version validation\<close>

definition looksLikeVersionRange :: "string \<Rightarrow> bool" where
  "looksLikeVersionRange version =
     (let trimmed = TrimSpace version in
      if trimmed = [] then False
      else if MatchString comparatorRangeRe trimmed then True
      else if MatchString hyphenRangeRe trimmed then True
      else if MatchString orRangeRe trimmed then True
      else if MatchString dottedVersionLikeRe trimmed then
        Contains trimmed ''x'' \<or> Contains trimmed ''X'' \<or> Contains trimmed ''*''
      else False)"

definition validateVersion :: "string \<Rightarrow> error option" where
  "validateVersion version =
     (if version = ''latest'' then Some (Sentinel ErrReservedVersionString)
      else if looksLikeVersionRange version then
        Some (Errorf ''%w: %q'' [W (Sentinel ErrVersionLooksLikeRange), S version])
      else None)"

section \<open>The manifest\<close>

text \<open>
  The structs of \<open>pkg/model\<close> and \<open>pkg/api/v0\<close>, with the fields the validators read.
  A pointer that may be \<open>nil\<close> is an \<open>option\<close>. The publisher-provided extension is a
  \<open>map[string]interface{}\<close>, a JSON object the validators only serialise.
\<close>

datatype json =
    JNull
  | JBool bool
  | JNumber int
  | JString string
  | JArray "json list"
  | JObject "(string \<times> json) list"

record Repository =
  Repo_URL :: string
  Repo_Source :: string
  Repo_Subfolder :: string

record Icon =
  Icon_Src :: string

record Transport =
  Transport_Type :: string
  Transport_URL :: string

record Argument =
  Arg_Type :: string
  Arg_Name :: string
  Arg_Value :: string
  Arg_Default :: string
  Arg_ValueHint :: string

record KeyValueInput =
  Env_Name :: string

record Package =
  Pkg_Identifier :: string
  Pkg_Version :: string
  RuntimeArguments :: "Argument list"
  PackageArguments :: "Argument list"
  EnvironmentVariables :: "KeyValueInput list"
  Pkg_Transport :: Transport

record ServerMeta =
  PublisherProvided :: "(string \<times> json) list option"

record ServerJSON =
  Schema :: string
  Name :: string
  Version :: string
  Title :: string
  WebsiteURL :: string
  Repository :: "Repository option"
  Icons :: "Icon list"
  Packages :: "Package list"
  Remotes :: "Transport list"
  Meta :: "ServerMeta option"

record Config =
  EnableRegistryValidation :: bool

text \<open>
  Modelled from the spec: the constants \<open>model.TransportTypeStdio\<close>,
  \<open>model.TransportTypeStreamableHTTP\<close>, \<open>model.TransportTypeSSE\<close>,
  \<open>model.ArgumentTypeNamed\<close> and \<open>SchemeHTTPS\<close>, whose declarations are not among the
  sources. The specification gives the transport types as stdio, streamable-http and sse,
  the argument types as named and positional, and the scheme as https.
\<close>

definition TransportTypeStdio :: string where
  "TransportTypeStdio = ''stdio''"

definition TransportTypeStreamableHTTP :: string where
  "TransportTypeStreamableHTTP = ''streamable-http''"

definition TransportTypeSSE :: string where
  "TransportTypeSSE = ''sse''"

definition ArgumentTypeNamed :: string where
  "ArgumentTypeNamed = ''named''"

definition SchemeHTTPS :: string where
  "SchemeHTTPS = ''https''"

section \<open>What the validators call outside their file\<close>

text \<open>
  A parsed URL of \<open>net/url\<close>, with the two fields the validators reach: the scheme and the
  host (host or host:port). \<open>u.IsAbs()\<close> is \<open>u.Scheme != ""\<close>; \<open>u.Hostname()\<close> drops a
  valid port and the square brackets of an IP literal.
\<close>

record URL =
  Scheme :: string
  Host :: string

definition IsAbs :: "URL \<Rightarrow> bool" where
  "IsAbs u = (Scheme u \<noteq> [])"

fun LastIndex :: "string \<Rightarrow> char \<Rightarrow> nat option" where
  "LastIndex [] sep = None"
| "LastIndex (c # cs) sep =
     (case LastIndex cs sep of
        Some i \<Rightarrow> Some (Suc i)
      | None \<Rightarrow> if c = sep then Some 0 else None)"

definition validOptionalPort :: "string \<Rightarrow> bool" where
  "validOptionalPort port =
     (case port of
        [] \<Rightarrow> True
      | c # ds \<Rightarrow> c = CHR '':'' \<and> list_all (\<lambda>b. in_class b [(CHR ''0'', CHR ''9'')]) ds)"

definition Hostname :: "URL \<Rightarrow> string" where
  "Hostname u =
     (let host = (case LastIndex (Host u) CHR '':'' of
                    None \<Rightarrow> Host u
                  | Some colon \<Rightarrow>
                      if validOptionalPort (drop colon (Host u)) then take colon (Host u)
                      else Host u)
      in if HasPrefix host ''['' \<and> HasSuffix host '']'' then take (length host - 2) (drop 1 host)
         else host)"

text \<open>
  The functions and values the validators use and the sources do not define: the
  parser of \<open>net/url\<close>, the encoder of \<open>encoding/json\<close>, the list
  \<open>model.SupportedSchemaVersions\<close> (its two entries are constants declared elsewhere), the
  helpers of the validators package that live in its other files, and the registry
  ownership check \<open>ValidatePackage\<close>. They are parameters of the model: every theorem
  below holds whatever they compute.
\<close>

record externals =
  url_Parse :: "string \<Rightarrow> error + URL"
  json_Marshal :: "(string \<times> json) list \<Rightarrow> error + string"
  SupportedSchemaVersions :: "string list"
  IsValidRepositoryURL :: "string \<Rightarrow> string \<Rightarrow> bool"
  IsValidSubfolderPath :: "string \<Rightarrow> bool"
  HasNoSpaces :: "string \<Rightarrow> bool"
  IsValidTemplatedURL :: "string \<Rightarrow> string list \<Rightarrow> bool \<Rightarrow> bool"
  extractTemplateVariables :: "string \<Rightarrow> string list"
  IsValidRemoteURL :: "string \<Rightarrow> bool"
  ValidatePackage :: "Package \<Rightarrow> string \<Rightarrow> error option"

section \<open>The validators\<close>

subsection \<open>Schema and name\<close>

definition IsSupportedSchemaVersion :: "string list \<Rightarrow> string \<Rightarrow> bool" where
  "IsSupportedSchemaVersion versions schemaURL =
     (if schemaURL = [] then False else list_ex (\<lambda>version. Contains schemaURL version) versions)"

definition parseServerName :: "ServerJSON \<Rightarrow> error + string" where
  "parseServerName serverJSON =
     (let name = Name serverJSON in
      if name = [] then Inl (Errorf ''server name is required and must be a string'' [])
      else if \<not> Contains name ''/'' then
        Inl (Errorf ''server name must be in format 'dns-namespace/name' (e.g., 'com.example.api/server')'' [])
      else if Count name CHR ''/'' > 1 then Inl (Sentinel ErrMultipleSlashesInServerName)
      else
        (case SplitN2 name CHR ''/'' of
           [namespace, serverName] \<Rightarrow>
             if namespace = [] \<or> serverName = [] then
               Inl (Errorf ''server name must be in format 'dns-namespace/name' with non-empty namespace and name parts'' [])
             else if \<not> MatchString serverNameRegex name then
               (if \<not> MatchString namespaceRegex namespace then
                  Inl (Errorf ''%w: namespace '%s' is invalid. Namespace must start and end with alphanumeric characters, and may contain dots and hyphens in the middle''
                         [W (Sentinel ErrInvalidServerNameFormat), S namespace])
                else if \<not> MatchString namePartRegex serverName then
                  Inl (Errorf ''%w: name '%s' is invalid. Name must start and end with alphanumeric characters, and may contain dots, underscores, and hyphens in the middle''
                         [W (Sentinel ErrInvalidServerNameFormat), S serverName])
                else
                  Inl (Errorf (''%w: invalid format for '%s'' @ [CHR 0x27])
                         [W (Sentinel ErrInvalidServerNameFormat), S name]))
             else Inr name
         | _ \<Rightarrow>
             Inl (Errorf ''server name must be in format 'dns-namespace/name' with non-empty namespace and name parts'' [])))"

subsection \<open>Repository, website, title, icons\<close>

definition validateRepository :: "externals \<Rightarrow> Repository option \<Rightarrow> error option" where
  "validateRepository ext obj =
     (case obj of
        None \<Rightarrow> None
      | Some r \<Rightarrow>
          if Repo_URL r = [] \<and> Repo_Source r = [] then None
          else if \<not> IsValidRepositoryURL ext (Repo_Source r) (Repo_URL r) then
            Some (Errorf ''%w: %s'' [W (Sentinel ErrInvalidRepositoryURL), S (Repo_URL r)])
          else if Repo_Subfolder r \<noteq> [] \<and> \<not> IsValidSubfolderPath ext (Repo_Subfolder r) then
            Some (Errorf ''%w: %s'' [W (Sentinel ErrInvalidSubfolderPath), S (Repo_Subfolder r)])
          else None)"

definition validateWebsiteURL :: "externals \<Rightarrow> string \<Rightarrow> error option" where
  "validateWebsiteURL ext websiteURL =
     (if websiteURL = [] then None
      else
        (case url_Parse ext websiteURL of
           Inl err \<Rightarrow> Some (Errorf ''invalid websiteUrl: %w'' [W err])
         | Inr parsedURL \<Rightarrow>
             if \<not> IsAbs parsedURL then
               Some (Errorf ''websiteUrl must be absolute (include scheme): %s'' [S websiteURL])
             else if Scheme parsedURL \<noteq> SchemeHTTPS then
               Some (Errorf ''websiteUrl must use https scheme: %s'' [S websiteURL])
             else None))"

definition validateTitle :: "string \<Rightarrow> error option" where
  "validateTitle title =
     (if title = [] then None
      else if TrimSpace title = [] then Some (Errorf ''title cannot be only whitespace'' [])
      else None)"

definition validateIcon :: "externals \<Rightarrow> Icon \<Rightarrow> error option" where
  "validateIcon ext icon =
     (case url_Parse ext (Icon_Src icon) of
        Inl err \<Rightarrow> Some (Errorf ''invalid icon src URL: %w'' [W err])
      | Inr parsedURL \<Rightarrow>
          if \<not> IsAbs parsedURL then
            Some (Errorf ''icon src must be an absolute URL (include scheme): %s'' [S (Icon_Src icon)])
          else if Scheme parsedURL \<noteq> SchemeHTTPS then
            Some (Errorf ''icon src must use https scheme (got %s): %s''
                    [S (Scheme parsedURL), S (Icon_Src icon)])
          else None)"

definition validateIcons :: "externals \<Rightarrow> Icon list \<Rightarrow> error option" where
  "validateIcons ext icons =
     (if length icons = 0 then None
      else first_error
             (map (\<lambda>(i, icon).
                     map_option (\<lambda>err. Errorf ''invalid icon at index %d: %w'' [D i, W err])
                       (validateIcon ext icon))
                  (enumerate 0 icons)))"

subsection \<open>Packages, arguments, transports\<close>

definition validateNamedArgumentName :: "string \<Rightarrow> error option" where
  "validateNamedArgumentName name =
     (if name = [] then Some (Sentinel ErrNamedArgumentNameRequired)
      else if Contains name ''<'' \<or> Contains name ''>'' \<or> Contains name '' '' \<or> Contains name ''$'' then
        Some (Errorf ''%w: %s'' [W (Sentinel ErrInvalidNamedArgumentName), S name])
      else None)"

definition validateArgumentValueFields :: "string \<Rightarrow> string \<Rightarrow> string \<Rightarrow> error option" where
  "validateArgumentValueFields name val defaultValue =
     (if val \<noteq> [] \<and> HasPrefix val name then
        Some (Errorf ''%w: value starts with argument name '%s': %s''
                [W (Sentinel ErrArgumentValueStartsWithName), S name, S val])
      else if defaultValue \<noteq> [] \<and> HasPrefix defaultValue name then
        Some (Errorf ''%w: default starts with argument name '%s': %s''
                [W (Sentinel ErrArgumentDefaultStartsWithName), S name, S defaultValue])
      else None)"

definition validateArgument :: "Argument \<Rightarrow> error option" where
  "validateArgument obj =
     (if Arg_Type obj = ArgumentTypeNamed then
        first_error
          [validateNamedArgumentName (Arg_Name obj),
           validateArgumentValueFields (Arg_Name obj) (Arg_Value obj) (Arg_Default obj)]
      else None)"

definition argumentVariables :: "Argument \<Rightarrow> string list" where
  "argumentVariables arg =
     (if Arg_Name arg \<noteq> [] then [Arg_Name arg] else []) @
     (if Arg_ValueHint arg \<noteq> [] then [Arg_ValueHint arg] else [])"

definition collectAvailableVariables :: "Package \<Rightarrow> string list" where
  "collectAvailableVariables pkg =
     map Env_Name (EnvironmentVariables pkg) @
     concat (map argumentVariables (RuntimeArguments pkg)) @
     concat (map argumentVariables (PackageArguments pkg))"

definition validatePackageTransport :: "externals \<Rightarrow> Transport \<Rightarrow> string list \<Rightarrow> error option" where
  "validatePackageTransport ext transport availableVariables =
     (if Transport_Type transport = TransportTypeStdio then
        (if Transport_URL transport \<noteq> [] then
           Some (Errorf ''url must be empty for %s transport type, got: %s''
                   [S (Transport_Type transport), S (Transport_URL transport)])
         else None)
      else if Transport_Type transport = TransportTypeStreamableHTTP
            \<or> Transport_Type transport = TransportTypeSSE then
        (if Transport_URL transport = [] then
           Some (Errorf ''url is required for %s transport type'' [S (Transport_Type transport)])
         else if \<not> IsValidTemplatedURL ext (Transport_URL transport) availableVariables True then
           (let templateVars = extractTemplateVariables ext (Transport_URL transport) in
            if length templateVars > 0 then
              Some (Errorf ''%w: template variables in URL %s reference undefined variables. Available variables: %v''
                      [W (Sentinel ErrInvalidRemoteURL), S (Transport_URL transport), V availableVariables])
            else Some (Errorf ''%w: %s'' [W (Sentinel ErrInvalidRemoteURL), S (Transport_URL transport)]))
         else None)
      else Some (Errorf ''unsupported transport type: %s'' [S (Transport_Type transport)]))"

definition validatePackageField :: "externals \<Rightarrow> Package \<Rightarrow> error option" where
  "validatePackageField ext obj =
     first_error
       [if \<not> HasNoSpaces ext (Pkg_Identifier obj) then Some (Sentinel ErrPackageNameHasSpaces) else None,
        validateVersion (Pkg_Version obj),
        first_error
          (map (\<lambda>arg. map_option (\<lambda>err. Errorf ''invalid runtime argument: %w'' [W err])
                        (validateArgument arg))
               (RuntimeArguments obj)),
        first_error
          (map (\<lambda>arg. map_option (\<lambda>err. Errorf ''invalid package argument: %w'' [W err])
                        (validateArgument arg))
               (PackageArguments obj)),
        map_option (\<lambda>err. Errorf ''invalid transport: %w'' [W err])
          (validatePackageTransport ext (Pkg_Transport obj) (collectAvailableVariables obj))]"

definition validateRemoteTransport :: "externals \<Rightarrow> Transport \<Rightarrow> error option" where
  "validateRemoteTransport ext obj =
     (if Transport_Type obj = TransportTypeStreamableHTTP \<or> Transport_Type obj = TransportTypeSSE then
        (if Transport_URL obj = [] then
           Some (Errorf ''url is required for %s transport type'' [S (Transport_Type obj)])
         else if \<not> IsValidRemoteURL ext (Transport_URL obj) then
           Some (Errorf ''%w: %s'' [W (Sentinel ErrInvalidRemoteURL), S (Transport_URL obj)])
         else None)
      else
        Some (Errorf ''unsupported transport type for remotes: %s (only streamable-http and sse are supported)''
                [S (Transport_Type obj)]))"

subsection \<open>Namespace ownership\<close>

definition extractPublisherDomainFromNamespace :: "string \<Rightarrow> string" where
  "extractPublisherDomainFromNamespace namespace =
     (let namespacePart = (case Index namespace CHR ''/'' of
                             None \<Rightarrow> namespace
                           | Some slashIdx \<Rightarrow> take slashIdx namespace);
          parts = Split namespacePart CHR ''.''
      in if length parts < 2 then [] else Join (rev parts) ''.'')"

definition isValidHostForDomain :: "string \<Rightarrow> string \<Rightarrow> bool" where
  "isValidHostForDomain hostname publisherDomain =
     (if hostname = publisherDomain then True
      else if HasSuffix hostname (''.'' @ publisherDomain) then True
      else False)"

definition validateRemoteURLMatchesNamespace :: "externals \<Rightarrow> string \<Rightarrow> string \<Rightarrow> error option" where
  "validateRemoteURLMatchesNamespace ext remoteURL namespace =
     (case url_Parse ext remoteURL of
        Inl err \<Rightarrow> Some (Errorf ''invalid URL format: %w'' [W err])
      | Inr parsedURL \<Rightarrow>
          (let hostname = Hostname parsedURL in
           if hostname = [] then Some (Errorf ''URL must have a valid hostname'' [])
           else if hostname = ''localhost'' \<or> HasSuffix hostname ''.localhost''
                 \<or> hostname = ''127.0.0.1'' then None
           else
             (let publisherDomain = extractPublisherDomainFromNamespace namespace in
              if publisherDomain = [] then
                Some (Errorf ''invalid namespace format: cannot extract domain from %s'' [S namespace])
              else if \<not> isValidHostForDomain hostname publisherDomain then
                Some (Errorf ''remote URL host %s does not match publisher domain %s''
                        [S hostname, S publisherDomain])
              else None)))"

definition validateRemoteNamespaceMatch :: "externals \<Rightarrow> ServerJSON \<Rightarrow> error option" where
  "validateRemoteNamespaceMatch ext serverJSON =
     (let namespace = Name serverJSON in
      first_error
        (map (\<lambda>remote.
                map_option
                  (\<lambda>err. Errorf ''remote URL %s does not match namespace %s: %w''
                            [S (Transport_URL remote), S namespace, W err])
                  (validateRemoteURLMatchesNamespace ext (Transport_URL remote) namespace))
             (Remotes serverJSON)))"

definition validateWebsiteURLNamespaceMatch :: "externals \<Rightarrow> ServerJSON \<Rightarrow> error option" where
  "validateWebsiteURLNamespaceMatch ext serverJSON =
     (if WebsiteURL serverJSON = [] then None
      else
        (let namespace = Name serverJSON in
         map_option
           (\<lambda>err. Errorf ''websiteUrl %s does not match namespace %s: %w''
                     [S (WebsiteURL serverJSON), S namespace, W err])
           (validateRemoteURLMatchesNamespace ext (WebsiteURL serverJSON) namespace)))"

subsection \<open>The two entry points\<close>

definition ValidateServerJSON :: "externals \<Rightarrow> ServerJSON \<Rightarrow> error option" where
  "ValidateServerJSON ext serverJSON =
     first_error
       [if Schema serverJSON = [] then Some (Errorf ''$schema field is required'' []) else None,
        if \<not> IsSupportedSchemaVersion (SupportedSchemaVersions ext) (Schema serverJSON) then
          Some (Errorf ''schema version %s is not supported. Supported versions: %s''
                  [S (Schema serverJSON), S (Join (SupportedSchemaVersions ext) '', '')])
        else None,
        (case parseServerName serverJSON of Inl err \<Rightarrow> Some err | Inr name \<Rightarrow> None),
        validateVersion (Version serverJSON),
        validateRepository ext (Repository serverJSON),
        validateWebsiteURL ext (WebsiteURL serverJSON),
        validateTitle (Title serverJSON),
        validateIcons ext (Icons serverJSON),
        first_error (map (validatePackageField ext) (Packages serverJSON)),
        first_error (map (validateRemoteTransport ext) (Remotes serverJSON)),
        validateRemoteNamespaceMatch ext serverJSON,
        validateWebsiteURLNamespaceMatch ext serverJSON]"

definition maxExtensionSize :: nat where
  "maxExtensionSize = 4 * 1024"

definition validatePublisherExtensions :: "externals \<Rightarrow> ServerJSON \<Rightarrow> error option" where
  "validatePublisherExtensions ext req =
     (case Meta req of
        None \<Rightarrow> None
      | Some meta \<Rightarrow>
          (case PublisherProvided meta of
             None \<Rightarrow> None
           | Some publisherProvided \<Rightarrow>
               (case json_Marshal ext publisherProvided of
                  Inl err \<Rightarrow>
                    Some (Errorf ''failed to marshal _meta.io.modelcontextprotocol.registry/publisher-provided extension: %w'' [W err])
                | Inr extensionsJSON \<Rightarrow>
                    if length extensionsJSON > maxExtensionSize then
                      Some (Errorf ''_meta.io.modelcontextprotocol.registry/publisher-provided extension exceeds 4KB limit (%d bytes)''
                              [D (length extensionsJSON)])
                    else None)))"

definition ValidatePublishRequest :: "externals \<Rightarrow> ServerJSON \<Rightarrow> Config \<Rightarrow> error option" where
  "ValidatePublishRequest ext req cfg =
     first_error
       [validatePublisherExtensions ext req,
        ValidateServerJSON ext req,
        if EnableRegistryValidation cfg then
          first_error
            (map (\<lambda>(i, pkg).
                    map_option
                      (\<lambda>err. Errorf ''registry validation failed for package %d (%s): %w''
                                [D i, S (Pkg_Identifier pkg), W err])
                      (ValidatePackage ext pkg (Name req)))
                 (enumerate 0 (Packages req)))
        else None]"

section \<open>The importer\<close>

text \<open>
  The importer reads files, sends HTTP requests, decodes JSON, calls the storage service
  and writes log lines. Its collaborators are parameters; what it does to the world is
  recorded in a state that every function passes on: the URLs requested, the manifests
  handed to \<open>CreateServer\<close>, and the lines logged, each oldest first. A collaborator
  answers a call knowing the calls made before it, so a server or a registry that changes
  between calls is covered. The context is not an argument of the model: the importer
  hands it to \<open>http.NewRequestWithContext\<close> and to \<open>CreateServer\<close> and reads it
  nowhere, so a context that is cancelled or past its deadline shows as a request that
  fails, which is one of the answers of the collaborator \<open>http\<close>.

  The slices of \<open>*ServerJSON\<close> are lists of manifests. Two loops fill them with the
  address of their loop variable (\<open>&response\<close>, \<open>&serverResponse.Server\<close>); each
  iteration has a variable of its own as of Go 1.22, the language version assumed here, so
  every pointer stays on the record it was taken from and nothing writes through it.
\<close>

type_synonym log_line = "string \<times> fmtarg list"

record world =
  requests :: "string list"
  createCalls :: "ServerJSON list"
  logged :: "log_line list"

text \<open>
  What \<open>http.NewRequestWithContext\<close> and \<open>http.DefaultClient.Do\<close> give for a URL: the
  request cannot be built, the request fails, or a response arrives with a status code
  and a body that \<open>io.ReadAll\<close> reads or fails to read.
\<close>

datatype http_outcome =
    RequestError error
  | DoError error
  | Response nat "error + string"

record ServerResponse =
  Server :: ServerJSON

record Metadata =
  NextCursor :: string

record page =
  Servers :: "ServerResponse list"
  Metadata :: "Metadata option"

record collaborators =
  ReadFile :: "string \<Rightarrow> error + string"
  http :: "string list \<Rightarrow> string \<Rightarrow> http_outcome"
  Unmarshal_servers :: "string \<Rightarrow> error + ServerJSON list"
  Unmarshal_page :: "string \<Rightarrow> error + page"
  CreateServer :: "ServerJSON list \<Rightarrow> ServerJSON \<Rightarrow> error option"


definition StatusOK :: nat where
  "StatusOK = 200"

definition fetchFromHTTP :: "collaborators \<Rightarrow> string \<Rightarrow> world \<Rightarrow> (error + string) \<times> world" where
  "fetchFromHTTP io url w =
     (case http io (requests w) url of
        RequestError err \<Rightarrow> (Inl (Errorf ''failed to create HTTP request: %w'' [W err]), w)
      | DoError err \<Rightarrow>
          (Inl (Errorf ''failed to fetch from HTTP: %w'' [W err]), w\<lparr>requests := requests w @ [url]\<rparr>)
      | Response statusCode body \<Rightarrow>
          (if statusCode \<noteq> StatusOK then
             Inl (Errorf ''HTTP request failed with status: %d'' [D statusCode])
           else body,
           w\<lparr>requests := requests w @ [url]\<rparr>))"

text \<open>
  The loop of \<open>fetchFromRegistryAPI\<close>, from the state it is in at the top of an
  iteration: the cursor and the records collected so far. Nothing in it bounds the number
  of iterations, so it is a partial function: \<open>None\<close> is a run that never returns.
\<close>

definition pageURL :: "string \<Rightarrow> string \<Rightarrow> string" where
  "pageURL baseURL cursor =
     (if cursor \<noteq> [] then
        (if Contains baseURL ''?'' then baseURL @ ''&cursor='' @ cursor
         else baseURL @ ''?cursor='' @ cursor)
      else baseURL)"

partial_function (option) fetchPages ::
  "collaborators \<Rightarrow> string \<Rightarrow> string \<Rightarrow> ServerJSON list \<Rightarrow> world
     \<Rightarrow> ((error + ServerJSON list) \<times> world) option" where
  "fetchPages io baseURL cursor allRecords w =
     (case fetchFromHTTP io (pageURL baseURL cursor) w of
        (Inl err, w') \<Rightarrow>
          Some (Inl (Errorf ''failed to fetch page from registry API: %w'' [W err]), w')
      | (Inr data, w') \<Rightarrow>
          (case Unmarshal_page io data of
             Inl err \<Rightarrow> Some (Inl (Errorf ''failed to parse registry API response: %w'' [W err]), w')
           | Inr response \<Rightarrow>
               (case Metadata response of
                  None \<Rightarrow> Some (Inr (allRecords @ map Server (Servers response)), w')
                | Some metadata \<Rightarrow>
                    if NextCursor metadata = [] then
                      Some (Inr (allRecords @ map Server (Servers response)), w')
                    else
                      fetchPages io baseURL (NextCursor metadata)
                        (allRecords @ map Server (Servers response)) w')))"

definition fetchFromRegistryAPI ::
  "collaborators \<Rightarrow> string \<Rightarrow> world \<Rightarrow> ((error + ServerJSON list) \<times> world) option" where
  "fetchFromRegistryAPI io baseURL w = fetchPages io baseURL [] [] w"










section \<open>Reference collaborators\<close>

text \<open>
  The theorems below hold for every choice of the parameters. To evaluate the model on
  concrete manifests, the parameters need values; these are the ones the examples use.
\<close>

subsection \<open>The URL parser\<close>

text \<open>
  \<open>url.Parse\<close> of Go's \<open>net/url\<close>, for the URLs of the examples: the fragment is cut
  off, a control byte is an error, the scheme is read by \<open>getScheme\<close> and lowered, the
  query is cut off, a rootless rest after a scheme is opaque, a first path segment with a
  colon and no scheme is an error, and the authority after \<open>//\<close> runs to the next slash,
  its host after the last \<open>@\<close>, with a port that must be valid. Percent-decoding, the
  characters allowed in a host and IP literals in brackets are left out, so the parser is
  exact only for URLs without \<open>%\<close> and \<open>[\<close> whose host is made of letters, digits, dots
  and hyphens.
\<close>

definition stringContainsCTLByte :: "string \<Rightarrow> bool" where
  "stringContainsCTLByte s = list_ex (\<lambda>b. (of_char b :: nat) < 0x20 \<or> (of_char b :: nat) = 0x7F) s"

fun getScheme_from :: "string \<Rightarrow> string \<Rightarrow> string \<Rightarrow> error + string \<times> string" where
  "getScheme_from rawURL seen [] = Inr ([], rawURL)"
| "getScheme_from rawURL seen (c # cs) =
     (if in_class c [(CHR ''a'', CHR ''z''), (CHR ''A'', CHR ''Z'')] then
        getScheme_from rawURL (seen @ [c]) cs
      else if in_class c [(CHR ''0'', CHR ''9''), (CHR ''+'', CHR ''+''), (CHR ''-'', CHR ''-''),
                          (CHR ''.'', CHR ''.'')] then
        (if seen = [] then Inr ([], rawURL) else getScheme_from rawURL (seen @ [c]) cs)
      else if c = CHR '':'' then
        (if seen = [] then Inl (External ''missing protocol scheme'') else Inr (seen, cs))
      else Inr ([], rawURL))"

definition getScheme :: "string \<Rightarrow> error + string \<times> string" where
  "getScheme rawURL = getScheme_from rawURL [] rawURL"

definition ToLower :: "string \<Rightarrow> string" where
  "ToLower s =
     map (\<lambda>c. if in_class c [(CHR ''A'', CHR ''Z'')] then char_of ((of_char c :: nat) + 32) else c) s"

definition parseAuthority :: "string \<Rightarrow> error + string" where
  "parseAuthority authority =
     (let host = (case LastIndex authority CHR ''@'' of
                    None \<Rightarrow> authority
                  | Some i \<Rightarrow> drop (Suc i) authority)
      in case LastIndex host CHR '':'' of
           None \<Rightarrow> Inr host
         | Some i \<Rightarrow>
             if validOptionalPort (drop i host) then Inr host
             else Inl (External ''invalid port after host''))"

definition net_url_Parse :: "string \<Rightarrow> error + URL" where
  "net_url_Parse rawURL =
     (let u = takeWhile (\<lambda>c. c \<noteq> CHR ''#'') rawURL in
      if stringContainsCTLByte u then Inl (External ''net/url: invalid control character in URL'')
      else if u = ''*'' then Inr \<lparr>Scheme = [], Host = []\<rparr>
      else
        (case getScheme u of
           Inl err \<Rightarrow> Inl err
         | Inr (scheme, afterScheme) \<Rightarrow>
             (let rest = takeWhile (\<lambda>c. c \<noteq> CHR ''?'') afterScheme in
              if \<not> HasPrefix rest ''/'' \<and> scheme \<noteq> [] then Inr \<lparr>Scheme = ToLower scheme, Host = []\<rparr>
              else if \<not> HasPrefix rest ''/'' \<and> Contains (takeWhile (\<lambda>c. c \<noteq> CHR ''/'') rest) '':'' then
                Inl (External ''first path segment in URL cannot contain colon'')
              else if (scheme \<noteq> [] \<or> \<not> HasPrefix rest ''///'') \<and> HasPrefix rest ''//'' then
                (case parseAuthority (takeWhile (\<lambda>c. c \<noteq> CHR ''/'') (drop 2 rest)) of
                   Inl err \<Rightarrow> Inl err
                 | Inr host \<Rightarrow> Inr \<lparr>Scheme = ToLower scheme, Host = host\<rparr>)
              else Inr \<lparr>Scheme = ToLower scheme, Host = []\<rparr>)))"

subsection \<open>The JSON encoder\<close>

text \<open>
  \<open>json.Marshal\<close> for values whose strings need no escaping (Go escapes the quote, the
  backslash, the control characters, the angle brackets and the ampersand) and whose
  objects list each key once, as a Go map holds it: only the length of its output matters
  to the validators, and the order of an object's keys does not change it.
\<close>

function decimal :: "nat \<Rightarrow> string" where
  "decimal n = (if n < 10 then [char_of (48 + n)] else decimal (n div 10) @ [char_of (48 + n mod 10)])"
  by pat_completeness auto
termination
  by (relation "measure id") auto

fun marshal :: "json \<Rightarrow> string" where
  "marshal JNull = ''null''"
| "marshal (JBool b) = (if b then ''true'' else ''false'')"
| "marshal (JNumber i) = (if i < 0 then ''-'' @ decimal (nat (- i)) else decimal (nat i))"
| "marshal (JString s) = [CHR 0x22] @ s @ [CHR 0x22]"
| "marshal (JArray xs) = ''['' @ Join (map marshal xs) '','' @ '']''"
| "marshal (JObject kvs) =
     ''{'' @ Join (map (\<lambda>(k, v). [CHR 0x22] @ k @ [CHR 0x22] @ '':'' @ marshal v) kvs) '','' @ ''}''"

subsection \<open>The helpers of the validators package\<close>

text \<open>
  Modelled from the spec: \<open>extractTemplateVariables\<close>, \<open>IsValidTemplatedURL\<close>,
  \<open>IsValidRemoteURL\<close> and \<open>HasNoSpaces\<close>, helpers of the validators package whose file is
  not among the sources. The specification says: a template variable is a
  \<open>{name}\<close>-style placeholder in a transport URL; a package transport URL must be a
  syntactically valid URL once every placeholder it contains is checked against the
  available-variable set; a remote URL must be a syntactically valid, non-templated URL,
  and (the comment at the call) not a localhost one; a package identifier has no
  white space. A URL counts as syntactically valid here when it parses with a scheme
  and a host.
\<close>

function placeholders :: "string \<Rightarrow> string list" where
  "placeholders [] = []"
| "placeholders (c # cs) =
     (if c = CHR ''{'' \<and> takeWhile (\<lambda>x. x \<noteq> CHR ''}'') cs \<noteq> [] \<and> dropWhile (\<lambda>x. x \<noteq> CHR ''}'') cs \<noteq> [] then
        takeWhile (\<lambda>x. x \<noteq> CHR ''}'') cs # placeholders (tl (dropWhile (\<lambda>x. x \<noteq> CHR ''}'') cs))
      else placeholders cs)"
  by pat_completeness auto
termination
  by (relation "measure length")
    (auto simp: less_Suc_eq_le intro: order_trans[OF diff_le_self length_dropWhile_le])

definition syntactically_valid :: "string \<Rightarrow> bool" where
  "syntactically_valid rawURL =
     (case net_url_Parse rawURL of Inl err \<Rightarrow> False | Inr u \<Rightarrow> Scheme u \<noteq> [] \<and> Host u \<noteq> [])"

definition spec_IsValidTemplatedURL :: "string \<Rightarrow> string list \<Rightarrow> bool \<Rightarrow> bool" where
  "spec_IsValidTemplatedURL rawURL availableVariables allowTemplates =
     (syntactically_valid rawURL
      \<and> (placeholders rawURL = []
         \<or> allowTemplates \<and> list_all (\<lambda>v. v \<in> set availableVariables) (placeholders rawURL)))"

definition spec_IsValidRemoteURL :: "string \<Rightarrow> bool" where
  "spec_IsValidRemoteURL rawURL =
     (case net_url_Parse rawURL of
        Inl err \<Rightarrow> False
      | Inr u \<Rightarrow>
          Scheme u \<noteq> [] \<and> Host u \<noteq> [] \<and> placeholders rawURL = []
          \<and> \<not> (Hostname u = ''localhost'' \<or> Hostname u = ''127.0.0.1''
                \<or> HasSuffix (Hostname u) ''.localhost''))"

definition spec_HasNoSpaces :: "string \<Rightarrow> bool" where
  "spec_HasNoSpaces s = (\<not> Contains s '' '')"

text \<open>
  The reference parameters. The two schema versions are sample identifiers. The
  examples have no repository, so the two repository helpers are never asked; they
  refuse everything. The registry ownership check accepts everything.
\<close>

definition reference :: externals where
  "reference =
     \<lparr>url_Parse = net_url_Parse,
      json_Marshal = (\<lambda>publisherProvided. Inr (marshal (JObject publisherProvided))),
      SupportedSchemaVersions = [''2025-10-17'', ''2025-09-29''],
      IsValidRepositoryURL = (\<lambda>source url. False),
      IsValidSubfolderPath = (\<lambda>path. False),
      HasNoSpaces = spec_HasNoSpaces,
      IsValidTemplatedURL = spec_IsValidTemplatedURL,
      extractTemplateVariables = placeholders,
      IsValidRemoteURL = spec_IsValidRemoteURL,
      ValidatePackage = (\<lambda>pkg name. None)\<rparr>"

text \<open>A manifest with every optional part absent, to build the examples from.\<close>

definition manifest :: "string \<Rightarrow> string \<Rightarrow> ServerJSON" where
  "manifest name version =
     \<lparr>Schema = ''https://static.modelcontextprotocol.io/schemas/2025-10-17/server.schema.json'',
      Name = name, Version = version, Title = [], WebsiteURL = [], Repository = None,
      Icons = [], Packages = [], Remotes = [], Meta = None\<rparr>"

section \<open>Checks on patterns\<close>

text \<open>
  Two checks on the syntax of a pattern, used to prove that no string of a set matches
  it: every string of the pattern has all its characters in a class, or has at least one
  character in a class.
\<close>

definition class_within :: "(char \<times> char) list \<Rightarrow> (char \<times> char) list \<Rightarrow> bool" where
  "class_within rs qs =
     list_all (\<lambda>(lo, hi). list_ex (\<lambda>(lo', hi'). (of_char lo' :: nat) \<le> of_char lo
                                   \<and> (of_char hi :: nat) \<le> of_char hi') qs) rs"

definition class_disjoint :: "(char \<times> char) list \<Rightarrow> (char \<times> char) list \<Rightarrow> bool" where
  "class_disjoint rs qs =
     list_all (\<lambda>(lo, hi). list_all (\<lambda>(lo', hi'). (of_char hi :: nat) < of_char lo'
                                   \<or> (of_char hi' :: nat) < of_char lo) qs) rs"

fun all_in :: "(char \<times> char) list \<Rightarrow> rexp \<Rightarrow> bool" where
  "all_in qs Nothing = True"
| "all_in qs Eps = True"
| "all_in qs (Class rs) = class_within rs qs"
| "all_in qs (Seq r s) = (all_in qs r \<and> all_in qs s)"
| "all_in qs (Alt r s) = (all_in qs r \<and> all_in qs s)"
| "all_in qs (Star r) = all_in qs r"

fun some_in :: "(char \<times> char) list \<Rightarrow> rexp \<Rightarrow> bool" where
  "some_in qs Nothing = True"
| "some_in qs Eps = False"
| "some_in qs (Class rs) = class_within rs qs"
| "some_in qs (Seq r s) = (some_in qs r \<or> some_in qs s)"
| "some_in qs (Alt r s) = (some_in qs r \<and> some_in qs s)"
| "some_in qs (Star r) = False"

text \<open>
  The printable ASCII characters other than the space, \<open>[0-9.]\<close> and \<open>[0-9.xX*]\<close>.
\<close>

definition printable :: "(char \<times> char) list" where
  "printable = [(CHR 0x21, CHR 0x7E)]"

definition dotted_digits :: "(char \<times> char) list" where
  "dotted_digits = [(CHR ''0'', CHR ''9''), (CHR ''.'', CHR ''.'')]"

definition segment_chars :: "(char \<times> char) list" where
  "segment_chars =
     [(CHR ''0'', CHR ''9''), (CHR ''.'', CHR ''.''), (CHR ''x'', CHR ''x''), (CHR ''X'', CHR ''X''),
      (CHR ''*'', CHR ''*'')]"


section \<open>The words of the claims\<close>

subsection \<open>Ownership of a host\<close>

text \<open>
  The hosts that are always exempt from the ownership check, and what it means for a host
  to belong to the publisher of a manifest: the namespace, the text of the name before
  the first slash, has at least two labels, and the host is the domain made of these
  labels in reverse order, or ends with a dot and that domain.
\<close>

definition exempt :: "string \<Rightarrow> bool" where
  "exempt hostname =
     (hostname = ''localhost'' \<or> HasSuffix hostname ''.localhost'' \<or> hostname = ''127.0.0.1'')"

definition owned_by :: "string \<Rightarrow> string \<Rightarrow> bool" where
  "owned_by hostname name =
     (let labels = Split (takeWhile (\<lambda>c. c \<noteq> CHR ''/'') name) CHR ''.'';
          domain = Join (rev labels) ''.''
      in 2 \<le> length labels \<and> (hostname = domain \<or> HasSuffix hostname (''.'' @ domain)))"


subsection \<open>Pagination\<close>

text \<open>
  The cursor a page hands on (empty when the page has no metadata), and the URLs the
  importer requests when it starts with a cursor and the server answers with a list of
  pages in turn.
\<close>

definition next_cursor :: "page \<Rightarrow> string" where
  "next_cursor p = (case Metadata p of None \<Rightarrow> [] | Some metadata \<Rightarrow> NextCursor metadata)"

fun page_urls :: "string \<Rightarrow> string \<Rightarrow> page list \<Rightarrow> string list" where
  "page_urls baseURL cursor [] = []"
| "page_urls baseURL cursor (p # ps) = pageURL baseURL cursor # page_urls baseURL (next_cursor p) ps"


text \<open>
  An answer is final when the loop returns on it: the request cannot be built or fails, the
  status is not 200, the body cannot be read or decoded, or the page's cursor is absent or
  empty.
\<close>

definition final :: "collaborators \<Rightarrow> http_outcome \<Rightarrow> bool" where
  "final io outcome =
     (case outcome of
        RequestError err \<Rightarrow> True
      | DoError err \<Rightarrow> True
      | Response statusCode body \<Rightarrow>
          statusCode \<noteq> StatusOK
          \<or> (case body of
                Inl err \<Rightarrow> True
              | Inr data \<Rightarrow>
                  (case Unmarshal_page io data of
                     Inl err \<Rightarrow> True
                   | Inr response \<Rightarrow> next_cursor response = [])))"

text \<open>
  The run of the loop is the sequence of its states at the top of an iteration: the cursor
  and the requests sent so far. A turn takes a state to the next one, with the cursor that
  the answer hands on, when the answer is not final. The loop returns at the first
  \<open>k\<close> for which the answer to the request of the state after \<open>k\<close> turns is final;
  the states after that one are never reached.
\<close>

definition answer :: "collaborators \<Rightarrow> string \<Rightarrow> string \<times> string list \<Rightarrow> http_outcome" where
  "answer io baseURL s = http io (snd s) (pageURL baseURL (fst s))"

definition handed_on :: "collaborators \<Rightarrow> http_outcome \<Rightarrow> string" where
  "handed_on io outcome =
     (case outcome of
        RequestError err \<Rightarrow> []
      | DoError err \<Rightarrow> []
      | Response statusCode body \<Rightarrow>
          (case body of
             Inl err \<Rightarrow> []
           | Inr data \<Rightarrow>
               (case Unmarshal_page io data of Inl err \<Rightarrow> [] | Inr response \<Rightarrow> next_cursor response)))"

definition turn :: "collaborators \<Rightarrow> string \<Rightarrow> string \<times> string list \<Rightarrow> string \<times> string list" where
  "turn io baseURL s =
     (handed_on io (answer io baseURL s), snd s @ [pageURL baseURL (fst s)])"

definition returns_at :: "collaborators \<Rightarrow> string \<Rightarrow> string list \<Rightarrow> nat \<Rightarrow> bool" where
  "returns_at io baseURL history k =
     final io (answer io baseURL ((turn io baseURL ^^ k) ([], history)))"

text \<open>
  The context that the caller passes goes into every request unchanged and is read nowhere
  else, so what it does shows in the answers to the requests. The one caller among the
  sources, \<open>main\<close>, passes a context with a deadline of five minutes. Requests take time:
  only finitely many are sent before a deadline, and every request sent after it fails in
  \<open>Do\<close>. A context expires after \<open>n\<close> requests when every request sent after \<open>n\<close>
  others or more fails in that way. A server is endless when each of its answers, whatever
  was requested before, is a page that decodes and carries a non-empty cursor: it never
  ends pagination, and the context under which it is asked never expires.
\<close>

definition expires :: "collaborators \<Rightarrow> nat \<Rightarrow> bool" where
  "expires io n = (\<forall>history url. n \<le> length history \<longrightarrow> (\<exists>err. http io history url = DoError err))"

definition endless :: "collaborators \<Rightarrow> bool" where
  "endless io =
     (\<forall>history url. \<exists>body response metadata.
        http io history url = Response StatusOK (Inr body)
        \<and> Unmarshal_page io body = Inr response
        \<and> Metadata response = Some metadata \<and> NextCursor metadata \<noteq> [])"


subsection \<open>The outcome of an import\<close>












section \<open>Examples\<close>

text \<open>Manifests and transports.\<close>

definition example_manifest :: ServerJSON where
  "example_manifest =
     (manifest ''com.example/server'' ''1.0.0'')
       \<lparr>WebsiteURL := ''https://example.com/docs'',
        Icons := [\<lparr>Icon_Src = ''https://evil.com/icon.png''\<rparr>],
        Remotes := [\<lparr>Transport_Type = ''streamable-http'', Transport_URL = ''https://api.example.com/mcp''\<rparr>]\<rparr>"

definition remote_at :: "string \<Rightarrow> ServerJSON" where
  "remote_at url =
     (manifest ''com.example/server'' ''1.0.0'')
       \<lparr>Remotes := [\<lparr>Transport_Type = ''streamable-http'', Transport_URL = url\<rparr>]\<rparr>"

definition oversized :: ServerJSON where
  "oversized =
     (manifest ''com.example/server'' ''1.0.0'')
       \<lparr>Schema := [],
        Meta := Some \<lparr>PublisherProvided = Some [(''note'', JString (replicate 5000 CHR ''x''))]\<rparr>\<rparr>"

definition templated :: Transport where
  "templated = \<lparr>Transport_Type = ''streamable-http'', Transport_URL = ''https://example.com/{port}''\<rparr>"

definition malformed :: Transport where
  "malformed = \<lparr>Transport_Type = ''streamable-http'', Transport_URL = ''not a url''\<rparr>"


text \<open>
  The world before an import, and five sets of collaborators: a server that never ends
  pagination; the same server under a context that expires after two requests; a catalog
  of three pages with the cursors A, B and the empty string, whose last manifest has the
  reserved version "latest"; the same catalog when it fails with status 500 after its
  first page; and a seed file of five manifests of which two are invalid (a reserved
  version, a name with two slashes) and one is refused by the storage service. The bodies
  of the responses stand for JSON texts: the decoders are collaborators and map them to
  the pages and manifests they hold.
\<close>

definition start :: world where
  "start = \<lparr>requests = [], createCalls = [], logged = []\<rparr>"

definition endless_server :: collaborators where
  "endless_server =
     \<lparr>ReadFile = (\<lambda>path. Inl (External ''no such file'')),
      http = (\<lambda>history url. Response 200 (Inr ''{}'')),
      Unmarshal_servers = (\<lambda>data. Inl (External ''not an array'')),
      Unmarshal_page = (\<lambda>data. Inr \<lparr>Servers = [], Metadata = Some \<lparr>NextCursor = ''again''\<rparr>\<rparr>),
      CreateServer = (\<lambda>calls server. None)\<rparr>"

definition impatient :: collaborators where
  "impatient =
     endless_server\<lparr>http := (\<lambda>history url. if length history < 2 then Response 200 (Inr ''{}'')
                                          else DoError (External ''context deadline exceeded''))\<rparr>"

definition catalog_pages :: "page list" where
  "catalog_pages =
     [\<lparr>Servers = [\<lparr>Server = manifest ''com.example/alpha'' ''1.0.0''\<rparr>,
                  \<lparr>Server = manifest ''com.example/beta'' ''1.0.0''\<rparr>],
       Metadata = Some \<lparr>NextCursor = ''A''\<rparr>\<rparr>,
      \<lparr>Servers = [\<lparr>Server = manifest ''com.example/gamma'' ''1.0.0''\<rparr>],
       Metadata = Some \<lparr>NextCursor = ''B''\<rparr>\<rparr>,
      \<lparr>Servers = [\<lparr>Server = manifest ''com.example/delta'' ''1.0.0''\<rparr>,
                  \<lparr>Server = manifest ''com.example/epsilon'' ''latest''\<rparr>],
       Metadata = Some \<lparr>NextCursor = []\<rparr>\<rparr>]"

definition catalog_url :: string where
  "catalog_url = ''https://registry.example.com/v0/servers''"

definition catalog :: collaborators where
  "catalog =
     \<lparr>ReadFile = (\<lambda>path. Inl (External ''open: no such file or directory'')),
      http = (\<lambda>history url.
                if url = catalog_url then Response 200 (Inr ''page 1'')
                else if url = catalog_url @ ''?cursor=A'' then Response 200 (Inr ''page 2'')
                else if url = catalog_url @ ''?cursor=B'' then Response 200 (Inr ''page 3'')
                else Response 404 (Inr [])),
      Unmarshal_servers = (\<lambda>data. Inl (External ''invalid character'')),
      Unmarshal_page = (\<lambda>data.
                if data = ''page 1'' then Inr (catalog_pages ! 0)
                else if data = ''page 2'' then Inr (catalog_pages ! 1)
                else if data = ''page 3'' then Inr (catalog_pages ! 2)
                else Inl (External ''invalid character'')),
      CreateServer = (\<lambda>calls server. None)\<rparr>"

definition failing_catalog :: collaborators where
  "failing_catalog =
     catalog\<lparr>http := (\<lambda>history url. if url = catalog_url then Response 200 (Inr ''page 1'')
                                   else Response 500 (Inr []))\<rparr>"




section \<open>Facts about strings\<close>

lemma HasPrefix_iff: "HasPrefix s p \<longleftrightarrow> (\<exists>t. s = p @ t)"
proof
  assume "HasPrefix s p"
  then have "s = p @ drop (length p) s"
    by (metis HasPrefix_def append_take_drop_id)
  then show "\<exists>t. s = p @ t" ..
next
  assume "\<exists>t. s = p @ t"
  then show "HasPrefix s p" by (auto simp: HasPrefix_def)
qed

lemma HasSuffix_iff: "HasSuffix s x \<longleftrightarrow> (\<exists>t. s = t @ x)"
proof
  assume "HasSuffix s x"
  then have "s = take (length s - length x) s @ x"
    by (metis HasSuffix_def append_take_drop_id)
  then show "\<exists>t. s = t @ x" ..
next
  assume "\<exists>t. s = t @ x"
  then show "HasSuffix s x" by (auto simp: HasSuffix_def)
qed

lemma Contains_iff: "Contains s sub \<longleftrightarrow> (\<exists>a b. s = a @ sub @ b)"
proof (induction s)
  case Nil
  then show ?case by auto
next
  case (Cons c cs)
  show ?case
  proof
    assume "Contains (c # cs) sub"
    then consider "HasPrefix (c # cs) sub" | "Contains cs sub" by auto
    then show "\<exists>a b. c # cs = a @ sub @ b"
    proof cases
      case 1
      then obtain t where "c # cs = sub @ t" by (auto simp: HasPrefix_iff)
      then have "c # cs = [] @ sub @ t" by simp
      then show ?thesis by blast
    next
      case 2
      then obtain a b where "cs = a @ sub @ b" using Cons.IH by auto
      then have "c # cs = (c # a) @ sub @ b" by simp
      then show ?thesis by blast
    qed
  next
    assume "\<exists>a b. c # cs = a @ sub @ b"
    then obtain a b where ab: "c # cs = a @ sub @ b" by auto
    show "Contains (c # cs) sub"
    proof (cases a)
      case Nil
      then have "HasPrefix (c # cs) sub" using ab by (auto simp: HasPrefix_iff)
      then show ?thesis by simp
    next
      case (Cons x a')
      then have "cs = a' @ sub @ b" using ab by simp
      then show ?thesis using Cons.IH by auto
    qed
  qed
qed

lemma Contains_single: "Contains s [c] \<longleftrightarrow> c \<in> set s"
  by (induction s) (auto simp: HasPrefix_def)

lemma first_error_None: "first_error cs = None \<longleftrightarrow> (\<forall>c\<in>set cs. c = None)"
  by (induction cs rule: first_error.induct) auto

section \<open>The matcher decides the language of a pattern\<close>

lemma nullable_iff: "nullable r \<longleftrightarrow> [] \<in> lang r"
  by (induction r) (auto intro: star_empty)

lemma star_cons_split:
  "x \<in> star A \<Longrightarrow> x = c # w \<Longrightarrow> \<exists>u v. w = u @ v \<and> c # u \<in> A \<and> v \<in> star A"
proof (induction x rule: star.induct)
  case star_empty
  then show ?case by simp
next
  case (star_step u v)
  show ?case
  proof (cases u)
    case Nil
    then show ?thesis using star_step by simp
  next
    case (Cons a u')
    then have "w = u' @ v" "c # u' \<in> A" using star_step by auto
    then show ?thesis using star_step.hyps(2) by blast
  qed
qed

lemma star_cons:
  "c # w \<in> star A \<longleftrightarrow> (\<exists>u v. w = u @ v \<and> c # u \<in> A \<and> v \<in> star A)"
proof
  assume "c # w \<in> star A"
  then show "\<exists>u v. w = u @ v \<and> c # u \<in> A \<and> v \<in> star A"
    by (rule star_cons_split) simp
next
  assume "\<exists>u v. w = u @ v \<and> c # u \<in> A \<and> v \<in> star A"
  then obtain u v where "w = u @ v" "c # u \<in> A" "v \<in> star A" by blast
  then show "c # w \<in> star A" using star.star_step[of "c # u" A v] by simp
qed

lemma deriv_lang: "w \<in> lang (deriv c r) \<longleftrightarrow> c # w \<in> lang r"
proof (induction r arbitrary: w)
  case (Seq r s)
  show ?case
  proof (cases "nullable r")
    case True
    then have "[] \<in> lang r" by (simp add: nullable_iff)
    then show ?thesis using True Seq
      by (auto simp: Cons_eq_append_conv)
  next
    case False
    then have "[] \<notin> lang r" by (simp add: nullable_iff)
    then show ?thesis using False Seq
      by (auto simp: Cons_eq_append_conv)
  qed
next
  case (Star r)
  then show ?case by (auto simp: star_cons)
qed auto

lemma MatchString_iff: "MatchString r s \<longleftrightarrow> s \<in> lang r"
  by (induction s arbitrary: r) (simp_all add: nullable_iff deriv_lang)

lemma lang_SeqI: "u \<in> lang r \<Longrightarrow> v \<in> lang s \<Longrightarrow> u @ v \<in> lang (Seq r s)"
  by auto

lemma lang_SeqE:
  assumes "w \<in> lang (Seq r s)"
  obtains u v where "w = u @ v" "u \<in> lang r" "v \<in> lang s"
  using assms by auto

lemma class_withinD:
  assumes "class_within rs qs" and "in_class c rs"
  shows "in_class c qs"
proof -
  from assms(2) obtain lo hi where r: "(lo, hi) \<in> set rs"
    and c: "(of_char lo :: nat) \<le> of_char c" "(of_char c :: nat) \<le> of_char hi"
    by (auto simp: in_class_def list_ex_iff)
  from assms(1) r obtain lo' hi' where q: "(lo', hi') \<in> set qs"
    and b: "(of_char lo' :: nat) \<le> of_char lo" "(of_char hi :: nat) \<le> of_char hi'"
    by (fastforce simp: class_within_def list_all_iff list_ex_iff)
  from c b have "(of_char lo' :: nat) \<le> of_char c" "(of_char c :: nat) \<le> of_char hi'"
    by linarith+
  with q show ?thesis by (auto simp: in_class_def list_ex_iff)
qed

lemma class_disjointD:
  assumes "class_disjoint rs qs" and "in_class c rs"
  shows "\<not> in_class c qs"
proof
  assume "in_class c qs"
  then obtain lo' hi' where q: "(lo', hi') \<in> set qs"
    and b: "(of_char lo' :: nat) \<le> of_char c" "(of_char c :: nat) \<le> of_char hi'"
    by (auto simp: in_class_def list_ex_iff)
  from assms(2) obtain lo hi where r: "(lo, hi) \<in> set rs"
    and c: "(of_char lo :: nat) \<le> of_char c" "(of_char c :: nat) \<le> of_char hi"
    by (auto simp: in_class_def list_ex_iff)
  from assms(1) r q have "(of_char hi :: nat) < of_char lo' \<or> (of_char hi' :: nat) < of_char lo"
    by (fastforce simp: class_disjoint_def list_all_iff)
  with b c show False by linarith
qed

lemma star_all:
  assumes "w \<in> star A" and "\<And>u. u \<in> A \<Longrightarrow> \<forall>c\<in>set u. P c"
  shows "\<forall>c\<in>set w. P c"
  using assms by (induction rule: star.induct) auto

lemma all_in_lang: "all_in qs r \<Longrightarrow> w \<in> lang r \<Longrightarrow> \<forall>c\<in>set w. in_class c qs"
proof (induction r arbitrary: w)
  case (Class rs)
  then show ?case by (auto dest: class_withinD)
next
  case (Star r)
  then show ?case using star_all[of w "lang r" "\<lambda>c. in_class c qs"] by auto
qed auto

lemma some_in_lang: "some_in qs r \<Longrightarrow> w \<in> lang r \<Longrightarrow> \<exists>c\<in>set w. in_class c qs"
proof (induction r arbitrary: w)
  case (Class rs)
  then show ?case by (auto dest: class_withinD)
next
  case (Seq r s)
  then show ?case by fastforce
qed auto

lemma no_match_disjoint:
  assumes "\<forall>c\<in>set v. in_class c qs" and "some_in ks r" and "class_disjoint qs ks"
  shows "\<not> MatchString r v"
proof
  assume "MatchString r v"
  then obtain c where "c \<in> set v" "in_class c ks"
    using some_in_lang[OF assms(2)] by (auto simp: MatchString_iff)
  then show False using assms(1,3) class_disjointD by blast
qed

section \<open>Facts about trimming\<close>

lemma space_runes_hd: "r \<in> set space_runes \<Longrightarrow> \<not> in_class (hd r) printable"
  by (auto simp: space_runes_def printable_def in_class_def)

lemma space_runes_last: "r \<in> set space_runes \<Longrightarrow> \<not> in_class (last r) printable"
  by (auto simp: space_runes_def printable_def in_class_def)

lemma leading_space_hd:
  assumes "s \<noteq> []" and "in_class (hd s) printable"
  shows "leading_space s = 0"
proof -
  have "\<not> HasPrefix s r" if "r \<in> set space_runes" for r
  proof
    assume "HasPrefix s r"
    then obtain t where "s = r @ t" by (auto simp: HasPrefix_iff)
    moreover have "r \<noteq> []" using that by (rule space_runes_nonempty)
    ultimately have "hd r = hd s" by (cases r) auto
    then show False using assms space_runes_hd[OF that] by simp
  qed
  then have "find (HasPrefix s) space_runes = None" by (auto simp: find_None_iff)
  then show ?thesis by (simp add: leading_space_def)
qed

lemma trailing_space_last:
  assumes "s \<noteq> []" and "in_class (last s) printable"
  shows "trailing_space s = 0"
proof -
  have "\<not> HasSuffix s r" if "r \<in> set space_runes" for r
  proof
    assume "HasSuffix s r"
    then obtain t where "s = t @ r" by (auto simp: HasSuffix_iff)
    moreover have "r \<noteq> []" using that by (rule space_runes_nonempty)
    ultimately have "last r = last s" by auto
    then show False using assms space_runes_last[OF that] by simp
  qed
  then have "find (HasSuffix s) space_runes = None" by (auto simp: find_None_iff)
  then show ?thesis by (simp add: trailing_space_def)
qed

lemma TrimSpace_ends:
  "s \<noteq> [] \<Longrightarrow> in_class (hd s) printable \<Longrightarrow> in_class (last s) printable \<Longrightarrow> TrimSpace s = s"
  by (simp add: TrimSpace_def leading_space_hd trailing_space_last)

lemma TrimSpace_Nil: "TrimSpace [] = []"
  by code_simp

section \<open>Facts about versions\<close>

lemma plain_chars:
  assumes "MatchString plainVersionRe v"
  shows "\<forall>c\<in>set v. in_class c dotted_digits" and "v \<noteq> []"
proof -
  have "all_in dotted_digits plainVersionRe" by code_simp
  then show "\<forall>c\<in>set v. in_class c dotted_digits"
    using assms all_in_lang by (simp add: MatchString_iff)
  have "\<not> nullable plainVersionRe" by code_simp
  then show "v \<noteq> []" using assms by auto
qed

lemma plain_ends:
  assumes "MatchString plainVersionRe p"
  shows "p \<noteq> []" "in_class (hd p) printable" "in_class (last p) printable"
proof -
  show ne: "p \<noteq> []" using plain_chars(2)[OF assms] .
  have w: "class_within dotted_digits printable" by code_simp
  from ne have "hd p \<in> set p" "last p \<in> set p" by auto
  then show "in_class (hd p) printable" "in_class (last p) printable"
    using plain_chars(1)[OF assms] class_withinD[OF w] by blast+
qed

lemma plain_not_range:
  assumes "MatchString plainVersionRe v"
  shows "\<not> looksLikeVersionRange v"
proof -
  note chars = plain_chars(1)[OF assms]
  have trim: "TrimSpace v = v"
    using plain_ends[OF assms] by (rule TrimSpace_ends)
  have c1: "\<not> MatchString comparatorRangeRe v"
  proof (rule no_match_disjoint[OF chars])
    show "some_in [(CHR ''^'', CHR ''^''), (CHR ''~'', CHR ''~''), (CHR ''<'', CHR ''>'')] comparatorRangeRe"
      by code_simp
    show "class_disjoint dotted_digits [(CHR ''^'', CHR ''^''), (CHR ''~'', CHR ''~''), (CHR ''<'', CHR ''>'')]"
      by code_simp
  qed
  have c2: "\<not> MatchString hyphenRangeRe v"
  proof (rule no_match_disjoint[OF chars])
    show "some_in [(CHR ''-'', CHR ''-'')] hyphenRangeRe" by code_simp
    show "class_disjoint dotted_digits [(CHR ''-'', CHR ''-'')]" by code_simp
  qed
  have c3: "\<not> MatchString orRangeRe v"
  proof (rule no_match_disjoint[OF chars])
    show "some_in [(CHR ''|'', CHR ''|'')] orRangeRe" by code_simp
    show "class_disjoint dotted_digits [(CHR ''|'', CHR ''|'')]" by code_simp
  qed
  have nox: "\<not> in_class c dotted_digits" if "c \<in> {CHR ''x'', CHR ''X'', CHR ''*''}" for c
    using that by (auto simp: dotted_digits_def in_class_def)
  have c4: "\<not> Contains v ''x''" "\<not> Contains v ''X''" "\<not> Contains v ''*''"
    using chars nox by (auto simp: Contains_single)
  show ?thesis
    using c1 c2 c3 c4 by (simp add: looksLikeVersionRange_def trim)
qed

lemma plain_accepted: "MatchString plainVersionRe v \<Longrightarrow> validateVersion v = None"
proof -
  assume m: "MatchString plainVersionRe v"
  have "\<not> in_class CHR ''l'' dotted_digits" by (simp add: dotted_digits_def in_class_def)
  then have "v \<noteq> ''latest''" using plain_chars(1)[OF m] by auto
  then show ?thesis using plain_not_range[OF m] by (simp add: validateVersion_def)
qed

lemma plain_fragment: "w \<in> lang plainVersionRe \<Longrightarrow> w \<in> lang versionFragment"
proof -
  assume "w \<in> lang plainVersionRe"
  then obtain a b where w: "w = a @ b" and a: "a \<in> lang (Plus digit)"
    and b: "b \<in> lang (RepUpTo 3 (Seq (Lit ''.'') (Plus digit)))"
    by (auto simp: plainVersionRe_def)
  have e: "[] \<in> lang (Opt (Lit ''v''))" "[] \<in> lang (Opt prerelease)" by (simp_all add: Opt_def)
  have "[] @ a @ b @ [] \<in> lang versionFragment"
    unfolding versionFragment_def Seqs.simps by (intro lang_SeqI a b e)
  then show ?thesis using w by simp
qed

lemma space_words: "[] \<in> lang (Star space)" "'' '' \<in> lang space" "'' '' \<in> lang (Star space)"
proof -
  show "[] \<in> lang (Star space)" by (simp add: star_empty)
  show s: "'' '' \<in> lang space" by (simp add: space_def in_class_def)
  show "'' '' \<in> lang (Star space)" using star_step[OF s star_empty] by simp
qed

lemma range_rejected:
  assumes "v \<noteq> ''latest''" and "TrimSpace v = v" and "v \<noteq> []"
    and "MatchString comparatorRangeRe v \<or> MatchString hyphenRangeRe v \<or> MatchString orRangeRe v"
  shows "validateVersion v = Some (Errorf ''%w: %q'' [W (Sentinel ErrVersionLooksLikeRange), S v])"
  using assms unfolding validateVersion_def looksLikeVersionRange_def Let_def by presburger

lemma not_latest: "c \<in> set v \<Longrightarrow> c \<notin> set ''latest'' \<Longrightarrow> v \<noteq> ''latest''"
  by blast

lemma comparator_ops:
  "\<forall>op\<in>set [''^'', ''~'', ''>='', ''<='', ''>'', ''<'', ''=''].
     MatchString (Alts [Lit ''^'', Lit ''~'', Lit ''>='', Lit ''<='', Lit ''>'', Lit ''<'', Lit ''='']) op
     \<and> op \<noteq> [] \<and> in_class (hd op) printable \<and> hd op \<notin> set ''latest''"
  by code_simp

lemma comparator_family:
  assumes "MatchString plainVersionRe p"
    and "op \<in> set [''^'', ''~'', ''>='', ''<='', ''>'', ''<'', ''='']"
  shows "validateVersion (op @ p)
       = Some (Errorf ''%w: %q'' [W (Sentinel ErrVersionLooksLikeRange), S (op @ p)])"
proof (rule range_rejected)
  have p: "p \<in> lang versionFragment" using assms(1) by (simp add: MatchString_iff plain_fragment)
  from comparator_ops assms(2)
  have op: "op \<in> lang (Alts [Lit ''^'', Lit ''~'', Lit ''>='', Lit ''<='', Lit ''>'', Lit ''<'', Lit ''=''])"
    and opne: "op \<noteq> []" "in_class (hd op) printable" "hd op \<notin> set ''latest''"
    unfolding MatchString_iff by blast+
  have "[] @ op @ [] @ p @ [] \<in> lang comparatorRangeRe"
    unfolding comparatorRangeRe_def Seqs.simps
    by (intro lang_SeqI op p space_words)
  then have "MatchString comparatorRangeRe (op @ p)" by (simp add: MatchString_iff)
  then show "MatchString comparatorRangeRe (op @ p) \<or> MatchString hyphenRangeRe (op @ p)
      \<or> MatchString orRangeRe (op @ p)" by blast
  show "TrimSpace (op @ p) = op @ p"
    using plain_ends[OF assms(1)] opne(1,2) by (intro TrimSpace_ends) simp_all
  have "hd op \<in> set (op @ p)" using opne(1) by simp
  then show "op @ p \<noteq> ''latest''" using opne(3) by (rule not_latest)
  show "op @ p \<noteq> []" using opne(1) by simp
qed

lemma hyphen_family:
  assumes "MatchString plainVersionRe p" and "MatchString plainVersionRe q"
  shows "validateVersion (p @ '' - '' @ q)
       = Some (Errorf ''%w: %q'' [W (Sentinel ErrVersionLooksLikeRange), S (p @ '' - '' @ q)])"
proof (rule range_rejected)
  have p: "p \<in> lang versionFragment" and q: "q \<in> lang versionFragment"
    using assms by (simp_all add: MatchString_iff plain_fragment)
  have h: "''-'' \<in> lang (Lit ''-'')" by (simp add: in_class_def)
  have "[] @ p @ '' '' @ ''-'' @ '' '' @ q @ [] \<in> lang hyphenRangeRe"
    unfolding hyphenRangeRe_def Seqs.simps
    by (intro lang_SeqI p q h space_words)
  then have "MatchString hyphenRangeRe (p @ '' - '' @ q)" by (simp add: MatchString_iff)
  then show "MatchString comparatorRangeRe (p @ '' - '' @ q) \<or> MatchString hyphenRangeRe (p @ '' - '' @ q)
      \<or> MatchString orRangeRe (p @ '' - '' @ q)" by blast
  show "TrimSpace (p @ '' - '' @ q) = p @ '' - '' @ q"
    using plain_ends[OF assms(1)] plain_ends[OF assms(2)] by (intro TrimSpace_ends) simp_all
  have "CHR '' '' \<in> set (p @ '' - '' @ q)" by simp
  then show "p @ '' - '' @ q \<noteq> ''latest''" by (rule not_latest) simp
  show "p @ '' - '' @ q \<noteq> []" by simp
qed

lemma or_family:
  assumes "MatchString plainVersionRe p" and "MatchString plainVersionRe q"
  shows "validateVersion (p @ '' || '' @ q)
       = Some (Errorf ''%w: %q'' [W (Sentinel ErrVersionLooksLikeRange), S (p @ '' || '' @ q)])"
proof (rule range_rejected)
  have p: "p \<in> lang versionFragment" and q: "q \<in> lang versionFragment"
    using assms by (simp_all add: MatchString_iff plain_fragment)
  have h: "''|'' @ ''|'' @ [] \<in> lang (Lit ''||'')"
    unfolding Lit.simps by (intro lang_SeqI) (simp_all add: in_class_def)
  have "''||'' @ '' '' @ q @ [] \<in> lang (Seqs [Lit ''||'', Star space, versionFragment, Star space])"
    unfolding Seqs.simps using h by (intro lang_SeqI q space_words) simp
  then have "(''||'' @ '' '' @ q @ []) @ []
      \<in> lang (Plus (Seqs [Lit ''||'', Star space, versionFragment, Star space]))"
    unfolding Plus_def by (intro lang_SeqI) (simp_all add: star_empty)
  then have "[] @ (p @ '' '') @ ((''||'' @ '' '' @ q @ []) @ []) \<in> lang orRangeRe"
    unfolding orRangeRe_def Seqs.simps
    by (intro lang_SeqI p space_words)
  then have "MatchString orRangeRe (p @ '' || '' @ q)" by (simp add: MatchString_iff)
  then show "MatchString comparatorRangeRe (p @ '' || '' @ q) \<or> MatchString hyphenRangeRe (p @ '' || '' @ q)
      \<or> MatchString orRangeRe (p @ '' || '' @ q)" by blast
  show "TrimSpace (p @ '' || '' @ q) = p @ '' || '' @ q"
    using plain_ends[OF assms(1)] plain_ends[OF assms(2)] by (intro TrimSpace_ends) simp_all
  have "CHR '' '' \<in> set (p @ '' || '' @ q)" by simp
  then show "p @ '' || '' @ q \<noteq> ''latest''" by (rule not_latest) simp
  show "p @ '' || '' @ q \<noteq> []" by simp
qed

lemma wildcard_chars:
  assumes "MatchString wildcardVersionRe v"
  shows "v \<noteq> []" "in_class (hd v) printable" "in_class (last v) printable" "v \<noteq> ''latest''"
proof -
  have "all_in segment_chars wildcardVersionRe" by code_simp
  then have chars: "\<forall>c\<in>set v. in_class c segment_chars"
    using assms all_in_lang by (simp add: MatchString_iff)
  have "\<not> nullable wildcardVersionRe" by code_simp
  then show ne: "v \<noteq> []" using assms by auto
  have w: "class_within segment_chars printable" by code_simp
  from ne have "hd v \<in> set v" "last v \<in> set v" by auto
  then show "in_class (hd v) printable" "in_class (last v) printable"
    using chars class_withinD[OF w] by blast+
  have "\<not> in_class CHR ''l'' segment_chars" by (simp add: segment_chars_def in_class_def)
  then show "v \<noteq> ''latest''" using chars by auto
qed

lemma wildcard_dotted:
  assumes "w \<in> lang wildcardVersionRe"
  shows "w \<in> lang dottedVersionLikeRe"
proof -
  from assms have "w \<in> lang (Seq segment
      (Seq (Seq (Lit ''.'') segment) (RepUpTo 1 (Seq (Lit ''.'') segment))))"
    unfolding wildcardVersionRe_def .
  then obtain a b where w: "w = a @ b" and a: "a \<in> lang segment"
    and b: "b \<in> lang (Seq (Seq (Lit ''.'') segment) (RepUpTo 1 (Seq (Lit ''.'') segment)))"
    by (rule lang_SeqE)
  have e: "[] \<in> lang (Opt prerelease)" "[] \<in> lang (Opt (Lit ''v''))" by (simp_all add: Opt_def)
  have "[] @ a \<in> lang (Seq (Opt (Lit ''v'')) (Plus digit))" if "a \<in> lang (Plus digit)"
    using that by (intro lang_SeqI e)
  moreover have "a \<in> lang (Plus digit) \<or> a \<in> lang wildcard"
    using a unfolding segment_def by simp
  ultimately have a': "a \<in> lang (Alt (Seq (Opt (Lit ''v'')) (Plus digit)) wildcard)"
    by auto
  have "[] @ a @ b @ [] @ [] \<in> lang dottedVersionLikeRe"
    unfolding dottedVersionLikeRe_def Seqs.simps
    using b unfolding segment_def by (intro lang_SeqI a' e space_words)
  then show ?thesis using w by simp
qed

lemma wildcard_family:
  assumes "MatchString wildcardVersionRe v" and "has_wildcard v"
  shows "validateVersion v = Some (Errorf ''%w: %q'' [W (Sentinel ErrVersionLooksLikeRange), S v])"
proof -
  note c = wildcard_chars[OF assms(1)]
  have trim: "TrimSpace v = v" using c(1,2,3) by (rule TrimSpace_ends)
  have m: "MatchString dottedVersionLikeRe v"
    using assms(1) by (simp add: MatchString_iff wildcard_dotted)
  have "looksLikeVersionRange v"
    using m assms(2) c(1) unfolding looksLikeVersionRange_def Let_def trim has_wildcard_def
    by presburger
  then show ?thesis using c(4) by (simp add: validateVersion_def)
qed

section \<open>Facts about the validators\<close>

lemma first_error_map_None: "first_error (map f xs) = None \<longleftrightarrow> (\<forall>x\<in>set xs. f x = None)"
  by (simp add: first_error_None)

lemma Index_take: "(case Index s c of None \<Rightarrow> s | Some i \<Rightarrow> take i s) = takeWhile (\<lambda>x. x \<noteq> c) s"
  by (induction s) (auto split: option.splits)

lemma Split_nonempty: "Split s c \<noteq> []"
  by (induction s) (auto split: list.splits)

lemma Join_two: "2 \<le> length ps \<Longrightarrow> Join ps sep \<noteq> [] \<or> sep = []"
  by (induction ps sep rule: Join.induct) auto

lemma domain_eq:
  "extractPublisherDomainFromNamespace name =
     (if length (Split (takeWhile (\<lambda>c. c \<noteq> CHR ''/'') name) CHR ''.'') < 2 then []
      else Join (rev (Split (takeWhile (\<lambda>c. c \<noteq> CHR ''/'') name) CHR ''.'')) ''.'')"
  by (simp add: extractPublisherDomainFromNamespace_def Index_take Let_def)

lemma domain_nonempty:
  "extractPublisherDomainFromNamespace name \<noteq> [] \<longleftrightarrow>
     2 \<le> length (Split (takeWhile (\<lambda>c. c \<noteq> CHR ''/'') name) CHR ''.'')"
  using Join_two[of "rev (Split (takeWhile (\<lambda>c. c \<noteq> CHR ''/'') name) CHR ''.'')" "''.''"]
  by (auto simp: domain_eq)

lemma namespace_match_None:
  "validateRemoteURLMatchesNamespace ext url name = None \<longleftrightarrow>
     (\<exists>u. url_Parse ext url = Inr u \<and> Hostname u \<noteq> []
          \<and> (exempt (Hostname u) \<or> owned_by (Hostname u) name))"
proof (cases "url_Parse ext url")
  case (Inl e)
  then show ?thesis by (simp add: validateRemoteURLMatchesNamespace_def)
next
  case (Inr u)
  show ?thesis
  proof (cases "Hostname u = [] \<or> exempt (Hostname u)")
    case True
    then show ?thesis using Inr
      by (auto simp: validateRemoteURLMatchesNamespace_def exempt_def Let_def)
  next
    case False
    have "owned_by (Hostname u) name \<longleftrightarrow>
        extractPublisherDomainFromNamespace name \<noteq> []
        \<and> isValidHostForDomain (Hostname u) (extractPublisherDomainFromNamespace name)"
      unfolding domain_nonempty unfolding domain_eq owned_by_def isValidHostForDomain_def Let_def
      by auto
    then show ?thesis using Inr False
      by (auto simp: validateRemoteURLMatchesNamespace_def exempt_def Let_def)
  qed
qed

lemma remotes_match_None:
  "validateRemoteNamespaceMatch ext m = None \<longleftrightarrow>
     (\<forall>r\<in>set (Remotes m). validateRemoteURLMatchesNamespace ext (Transport_URL r) (Name m) = None)"
  by (simp add: validateRemoteNamespaceMatch_def first_error_map_None Let_def)

lemma website_match_None:
  "validateWebsiteURLNamespaceMatch ext m = None \<longleftrightarrow>
     (WebsiteURL m = [] \<or> validateRemoteURLMatchesNamespace ext (WebsiteURL m) (Name m) = None)"
  by (simp add: validateWebsiteURLNamespaceMatch_def Let_def)

lemma validateIcon_None:
  "validateIcon ext icon = None \<longleftrightarrow>
     (\<exists>u. url_Parse ext (Icon_Src icon) = Inr u \<and> IsAbs u \<and> Scheme u = SchemeHTTPS)"
  by (cases "url_Parse ext (Icon_Src icon)") (auto simp: validateIcon_def)

lemma validateIcons_None:
  "validateIcons ext icons = None \<longleftrightarrow> (\<forall>i\<in>set icons. validateIcon ext i = None)"
proof -
  have "(\<forall>p\<in>set (enumerate 0 icons). validateIcon ext (snd p) = None)
      \<longleftrightarrow> (\<forall>i\<in>set icons. validateIcon ext i = None)"
    by (metis (no_types, lifting) image_iff list.set_map map_snd_enumerate)
  then show ?thesis
    by (auto simp: validateIcons_def first_error_map_None split: prod.splits)
qed

lemma validateWebsiteURL_None:
  "validateWebsiteURL ext url = None \<longleftrightarrow>
     (url = [] \<or> (\<exists>u. url_Parse ext url = Inr u \<and> IsAbs u \<and> Scheme u = SchemeHTTPS))"
  by (cases "url_Parse ext url") (auto simp: validateWebsiteURL_def)

lemma accepted_iff:
  "ValidateServerJSON ext m = None \<longleftrightarrow>
     Schema m \<noteq> [] \<and> IsSupportedSchemaVersion (SupportedSchemaVersions ext) (Schema m)
     \<and> (\<exists>n. parseServerName m = Inr n)
     \<and> validateVersion (Version m) = None
     \<and> validateRepository ext (Repository m) = None
     \<and> validateWebsiteURL ext (WebsiteURL m) = None
     \<and> validateTitle (Title m) = None
     \<and> validateIcons ext (Icons m) = None
     \<and> (\<forall>p\<in>set (Packages m). validatePackageField ext p = None)
     \<and> (\<forall>r\<in>set (Remotes m). validateRemoteTransport ext r = None)
     \<and> validateRemoteNamespaceMatch ext m = None
     \<and> validateWebsiteURLNamespaceMatch ext m = None"
  unfolding ValidateServerJSON_def first_error_None
  by (cases "parseServerName m") (auto simp: first_error_map_None)

lemma domain_com_example: "extractPublisherDomainFromNamespace (''com.example/'' @ n) = ''example.com''"
  by (simp add: domain_eq)

lemma IsSupported_iff:
  "IsSupportedSchemaVersion vs s \<longleftrightarrow> s \<noteq> [] \<and> (\<exists>v\<in>set vs. Contains s v)"
  by (simp add: IsSupportedSchemaVersion_def list_ex_iff)

lemma Contains_nonempty: "Contains s v \<Longrightarrow> v \<noteq> [] \<Longrightarrow> s \<noteq> []"
  by (auto simp: Contains_iff)

lemma version_frame:
  assumes "validateVersion v = None"
  shows "ValidateServerJSON ext (m\<lparr>Version := v\<rparr>) = ValidateServerJSON ext (m\<lparr>Version := []\<rparr>)"
proof -
  have e: "validateVersion [] = None" by code_simp
  show ?thesis
    unfolding ValidateServerJSON_def
    by (simp add: assms e parseServerName_def validateRemoteNamespaceMatch_def
        validateWebsiteURLNamespaceMatch_def)
qed

lemma first_error_single: "first_error [c] = c"
  by (cases c) simp_all

lemma publish_order:
  "ValidatePublishRequest ext req cfg =
     (case validatePublisherExtensions ext req of
        Some err \<Rightarrow> Some err
      | None \<Rightarrow>
          (case ValidateServerJSON ext req of
             Some err \<Rightarrow> Some err
           | None \<Rightarrow>
               if EnableRegistryValidation cfg then
                 first_error
                   (map (\<lambda>(i, pkg).
                           map_option
                             (\<lambda>err. Errorf ''registry validation failed for package %d (%s): %w''
                                       [D i, S (Pkg_Identifier pkg), W err])
                             (ValidatePackage ext pkg (Name req)))
                        (enumerate 0 (Packages req)))
               else None))"
  by (simp add: ValidatePublishRequest_def first_error_single split: option.splits)

lemma set_argumentVariables:
  "set (argumentVariables a) =
     {n. n = Arg_Name a \<and> n \<noteq> []} \<union> {h. h = Arg_ValueHint a \<and> h \<noteq> []}"
  by (auto simp: argumentVariables_def)

lemma length_page_urls: "length (page_urls baseURL cursor ps) = length ps"
  by (induction ps arbitrary: cursor) simp_all

lemma fetch_ok:
  assumes "http io (requests w) url = Response StatusOK (Inr body)"
  shows "fetchFromHTTP io url w = (Inr body, w\<lparr>requests := requests w @ [url]\<rparr>)"
  using assms by (simp add: fetchFromHTTP_def)

lemma fetchPages_script:
  assumes "ps \<noteq> []"
    and "\<forall>k<length ps. \<exists>body.
           http io (requests w @ take k (page_urls baseURL cursor ps)) (page_urls baseURL cursor ps ! k)
             = Response StatusOK (Inr body)
           \<and> Unmarshal_page io body = Inr (ps ! k)"
    and "\<forall>p\<in>set (butlast ps). next_cursor p \<noteq> []"
    and "next_cursor (last ps) = []"
  shows "fetchPages io baseURL cursor allRecords w
       = Some (Inr (allRecords @ concat (map (\<lambda>p. map Server (Servers p)) ps)),
               w\<lparr>requests := requests w @ page_urls baseURL cursor ps\<rparr>)"
  using assms
proof (induction ps arbitrary: cursor allRecords w)
  case Nil
  then show ?case by simp
next
  case (Cons p ps)
  from Cons.prems(2)[rule_format, of 0] obtain body where
    h: "http io (requests w) (pageURL baseURL cursor) = Response StatusOK (Inr body)"
    and u: "Unmarshal_page io body = Inr p"
    by auto
  let ?w = "w\<lparr>requests := requests w @ [pageURL baseURL cursor]\<rparr>"
  let ?acc = "allRecords @ map Server (Servers p)"
  show ?case
  proof (cases "ps = []")
    case True
    then have "next_cursor p = []" using Cons.prems(4) by simp
    then show ?thesis using True u
      by (subst fetchPages.simps)
        (auto simp: fetch_ok[OF h] next_cursor_def split: option.splits)
  next
    case False
    then have nc: "next_cursor p \<noteq> []" using Cons.prems(3) by simp
    then obtain metadata where md: "Metadata p = Some metadata" "NextCursor metadata = next_cursor p"
      by (auto simp: next_cursor_def split: option.splits)
    have step: "fetchPages io baseURL cursor allRecords w
        = fetchPages io baseURL (next_cursor p) ?acc ?w"
      using u md nc by (subst fetchPages.simps) (simp add: fetch_ok[OF h])
    have "\<forall>k<length ps. \<exists>body.
           http io (requests ?w @ take k (page_urls baseURL (next_cursor p) ps))
             (page_urls baseURL (next_cursor p) ps ! k) = Response StatusOK (Inr body)
           \<and> Unmarshal_page io body = Inr (ps ! k)"
    proof (intro allI impI)
      fix k assume "k < length ps"
      then have "Suc k < length (p # ps)" by simp
      from Cons.prems(2)[rule_format, OF this] show "\<exists>body.
           http io (requests ?w @ take k (page_urls baseURL (next_cursor p) ps))
             (page_urls baseURL (next_cursor p) ps ! k) = Response StatusOK (Inr body)
           \<and> Unmarshal_page io body = Inr (ps ! k)"
        by simp
    qed
    moreover have "\<forall>q\<in>set (butlast ps). next_cursor q \<noteq> []" using Cons.prems(3) False by simp
    moreover have "next_cursor (last ps) = []" using Cons.prems(4) False by simp
    ultimately have "fetchPages io baseURL (next_cursor p) ?acc ?w
        = Some (Inr (?acc @ concat (map (\<lambda>p. map Server (Servers p)) ps)),
                ?w\<lparr>requests := requests ?w @ page_urls baseURL (next_cursor p) ps\<rparr>)"
      using Cons.IH[OF False] by blast
    then show ?thesis unfolding step by simp
  qed
qed

lemma fetchPages_endless:
  assumes "fetchPages io baseURL cursor allRecords w = Some y"
  shows "\<not> endless io"
  using assms
proof (induction rule: fetchPages.raw_induct[rotated, consumes 1])
  case (1 loop io baseURL cursor allRecords w y)
  show ?case
  proof
    assume e: "endless io"
    then obtain body response metadata where
      h: "http io (requests w) (pageURL baseURL cursor) = Response StatusOK (Inr body)"
      and u: "Unmarshal_page io body = Inr response"
      and m: "Metadata response = Some metadata" "NextCursor metadata \<noteq> []"
      unfolding endless_def by blast
    from 1(2) have "loop io baseURL (NextCursor metadata)
        (allRecords @ map Server (Servers response))
        (w\<lparr>requests := requests w @ [pageURL baseURL cursor]\<rparr>) = Some y"
      by (simp add: fetch_ok[OF h] u m)
    then have "\<not> endless io" by (rule 1(1))
    then show False using e by contradiction
  qed
qed

lemma fetchPages_done:
  assumes "final io (http io (requests w) (pageURL baseURL cursor))"
  shows "\<exists>y. fetchPages io baseURL cursor allRecords w = Some y
           \<and> length (requests (snd y)) \<le> Suc (length (requests w))"
  using assms
  by (subst fetchPages.simps)
    (auto simp: final_def fetchFromHTTP_def next_cursor_def
      split: http_outcome.splits sum.splits option.splits)

lemma fetchPages_turn:
  assumes "\<not> final io (http io (requests w) (pageURL baseURL cursor))"
  shows "\<exists>allRecords'.
      fetchPages io baseURL cursor allRecords w
        = fetchPages io baseURL (fst (turn io baseURL (cursor, requests w))) allRecords'
            (w\<lparr>requests := snd (turn io baseURL (cursor, requests w))\<rparr>)"
  using assms
  by (subst fetchPages.simps)
    (auto simp: final_def fetchFromHTTP_def next_cursor_def turn_def answer_def handed_on_def
      split: http_outcome.splits sum.splits option.splits)

lemma turn_history: "length (snd ((turn io baseURL ^^ k) s)) = length (snd s) + k"
  by (induction k) (simp_all add: turn_def)

lemma fetchPages_returns:
  assumes "final io (answer io baseURL ((turn io baseURL ^^ k) (cursor, requests w)))"
  shows "\<exists>y. fetchPages io baseURL cursor allRecords w = Some y
           \<and> length (requests (snd y)) \<le> length (requests w) + Suc k"
  using assms
proof (induction k arbitrary: cursor allRecords w)
  case 0
  then have "final io (http io (requests w) (pageURL baseURL cursor))" by (simp add: answer_def)
  from fetchPages_done[OF this] show ?case by simp
next
  case (Suc k)
  show ?case
  proof (cases "final io (http io (requests w) (pageURL baseURL cursor))")
    case True
    from fetchPages_done[OF True, of allRecords] show ?thesis by auto
  next
    case False
    let ?t = "turn io baseURL (cursor, requests w)"
    let ?w = "w\<lparr>requests := snd ?t\<rparr>"
    from fetchPages_turn[OF False] obtain allRecords' where
      s: "fetchPages io baseURL cursor allRecords w = fetchPages io baseURL (fst ?t) allRecords' ?w"
      by blast
    have "(turn io baseURL ^^ Suc k) (cursor, requests w) = (turn io baseURL ^^ k) (fst ?t, requests ?w)"
      by (simp add: funpow_swap1)
    with Suc.prems have "final io (answer io baseURL ((turn io baseURL ^^ k) (fst ?t, requests ?w)))"
      by simp
    from Suc.IH[OF this, of allRecords'] obtain y where
      y: "fetchPages io baseURL (fst ?t) allRecords' ?w = Some y"
      and l: "length (requests (snd y)) \<le> length (requests ?w) + Suc k"
      by blast
    have "length (requests ?w) = Suc (length (requests w))" by (simp add: turn_def)
    with y l show ?thesis unfolding s by auto
  qed
qed

lemma fetchPages_only:
  assumes "fetchPages io baseURL cursor allRecords w = Some y"
  shows "\<exists>k. final io (answer io baseURL ((turn io baseURL ^^ k) (cursor, requests w)))"
  using assms
proof (induction rule: fetchPages.raw_induct[rotated, consumes 1])
  case (1 loop io baseURL cursor allRecords w y)
  show ?case
  proof (cases "final io (http io (requests w) (pageURL baseURL cursor))")
    case True
    then have "final io (answer io baseURL ((turn io baseURL ^^ 0) (cursor, requests w)))"
      by (simp add: answer_def)
    then show ?thesis by blast
  next
    case False
    let ?t = "turn io baseURL (cursor, requests w)"
    let ?w = "w\<lparr>requests := snd ?t\<rparr>"
    from False 1(2) obtain allRecords' where "loop io baseURL (fst ?t) allRecords' ?w = Some y"
      by (auto simp: final_def fetchFromHTTP_def next_cursor_def turn_def answer_def handed_on_def
          split: http_outcome.splits sum.splits option.splits if_splits)
    from 1(1)[OF this] obtain k where
      "final io (answer io baseURL ((turn io baseURL ^^ k) (fst ?t, requests ?w)))" by blast
    then have "final io (answer io baseURL ((turn io baseURL ^^ Suc k) (cursor, requests w)))"
      by (simp add: funpow_swap1)
    then show ?thesis by blast
  qed
qed

lemma expires_returns:
  assumes "expires io n"
  shows "returns_at io baseURL history (n - length history)"
proof -
  let ?s = "(turn io baseURL ^^ (n - length history)) ([], history)"
  have "n \<le> length (snd ?s)" by (simp add: turn_history)
  then obtain err where "http io (snd ?s) (pageURL baseURL (fst ?s)) = DoError err"
    using assms unfolding expires_def by blast
  then show ?thesis by (simp add: returns_at_def answer_def final_def)
qed

lemma endless_never:
  assumes "endless io"
  shows "\<not> returns_at io baseURL history k"
proof -
  let ?s = "(turn io baseURL ^^ k) ([], history)"
  from assms obtain body response metadata where
    "http io (snd ?s) (pageURL baseURL (fst ?s)) = Response StatusOK (Inr body)"
    "Unmarshal_page io body = Inr response"
    "Metadata response = Some metadata" "NextCursor metadata \<noteq> []"
    unfolding endless_def by blast
  then show ?thesis by (simp add: returns_at_def answer_def final_def next_cursor_def)
qed




















lemma catalog_urls:
  "page_urls catalog_url [] catalog_pages
     = [catalog_url, catalog_url @ ''?cursor=A'', catalog_url @ ''?cursor=B'']"
  by code_simp

lemma catalog_cursors:
  "(\<forall>p\<in>set (butlast catalog_pages). next_cursor p \<noteq> []) \<and> next_cursor (last catalog_pages) = []
   \<and> catalog_pages \<noteq> [] \<and> length catalog_pages = 3"
  by code_simp

lemma catalog_distinct:
  "catalog_url @ ''?cursor=A'' \<noteq> catalog_url" "catalog_url @ ''?cursor=B'' \<noteq> catalog_url"
  "catalog_url @ ''?cursor=B'' \<noteq> catalog_url @ ''?cursor=A''"
  by simp_all

lemma catalog_script:
  "\<forall>k<length catalog_pages. \<exists>body.
     http catalog (requests start @ take k (page_urls catalog_url [] catalog_pages))
       (page_urls catalog_url [] catalog_pages ! k) = Response StatusOK (Inr body)
     \<and> Unmarshal_page catalog body = Inr (catalog_pages ! k)"
proof (intro allI impI)
  fix k assume "k < length catalog_pages"
  then consider "k = 0" | "k = 1" | "k = 2" using catalog_cursors by force
  then show "\<exists>body.
     http catalog (requests start @ take k (page_urls catalog_url [] catalog_pages))
       (page_urls catalog_url [] catalog_pages ! k) = Response StatusOK (Inr body)
     \<and> Unmarshal_page catalog body = Inr (catalog_pages ! k)"
    unfolding catalog_urls
    by cases (simp_all add: catalog_def StatusOK_def catalog_distinct)
qed

lemma catalog_records:
  "concat (map (\<lambda>p. map Server (Servers p)) catalog_pages)
     = [manifest ''com.example/alpha'' ''1.0.0'', manifest ''com.example/beta'' ''1.0.0'',
        manifest ''com.example/gamma'' ''1.0.0'', manifest ''com.example/delta'' ''1.0.0'',
        manifest ''com.example/epsilon'' ''latest'']"
  by (simp add: catalog_pages_def)



lemma failing_fetch: "fetchFromRegistryAPI failing_catalog catalog_url start
   = Some (Inl (Errorf ''failed to fetch page from registry API: %w''
                  [W (Errorf ''HTTP request failed with status: %d'' [D 500])]),
           start\<lparr>requests := [catalog_url, catalog_url @ ''?cursor=A'']\<rparr>)"
proof -
  have p: "catalog_pages ! 0 = \<lparr>Servers = [\<lparr>Server = manifest ''com.example/alpha'' ''1.0.0''\<rparr>,
                  \<lparr>Server = manifest ''com.example/beta'' ''1.0.0''\<rparr>],
       Metadata = Some \<lparr>NextCursor = ''A''\<rparr>\<rparr>"
    by (simp add: catalog_pages_def)
  have q: "Contains catalog_url ''?'' = False" by code_simp
  show ?thesis
    unfolding fetchFromRegistryAPI_def
    apply (subst fetchPages.simps)
    apply (simp add: fetchFromHTTP_def pageURL_def failing_catalog_def catalog_def StatusOK_def p start_def)
    apply (subst fetchPages.simps)
    apply (simp add: fetchFromHTTP_def pageURL_def q StatusOK_def)
    done
qed







lemma example_accepted: "ValidateServerJSON reference example_manifest = None"
  by code_simp

section \<open>The claims\<close>

text \<open>
  C1, as it is stated, fails on the icons. The manifest \<open>com.example/server\<close> with one
  icon at \<open>https://evil.com/icon.png\<close> is accepted, although the icon's host evil.com is
  neither exempt nor owned by the namespace com.example: \<open>validateIcon\<close> checks that the
  source parses, is absolute and uses https, and no function compares an icon's host with
  the namespace.
\<close>

theorem C1_counterexample:
  "ValidateServerJSON reference
       ((manifest ''com.example/server'' ''1.0.0'')\<lparr>Icons := [\<lparr>Icon_Src = ''https://evil.com/icon.png''\<rparr>]\<rparr>)
     = None
   \<and> map_sum id Hostname (net_url_Parse ''https://evil.com/icon.png'') = Inr ''evil.com''
   \<and> \<not> exempt ''evil.com'' \<and> \<not> owned_by ''evil.com'' ''com.example/server''"
  by code_simp

text \<open>
  C1, amended. For every manifest accepted by \<open>ValidateServerJSON\<close>: the websiteUrl, when
  it is not empty, parses, uses the https scheme, and has a non-empty hostname that is
  exempt (localhost, a name ending in .localhost, or 127.0.0.1) or is owned by the
  publisher, that is, equals the domain obtained by reversing the dot-separated labels of
  the namespace part of the name, or ends with a dot and that domain, the namespace
  having at least two labels; every remote transport's url parses and has such a
  hostname; and every icon's src parses and uses the https scheme, with no condition on
  its hostname.
\<close>

theorem C1_amended:
  assumes "ValidateServerJSON ext m = None"
  shows "(WebsiteURL m \<noteq> [] \<longrightarrow>
            (\<exists>u. url_Parse ext (WebsiteURL m) = Inr u \<and> Scheme u = SchemeHTTPS \<and> Hostname u \<noteq> []
                 \<and> (exempt (Hostname u) \<or> owned_by (Hostname u) (Name m))))
       \<and> (\<forall>r\<in>set (Remotes m).
            \<exists>u. url_Parse ext (Transport_URL r) = Inr u \<and> Hostname u \<noteq> []
                 \<and> (exempt (Hostname u) \<or> owned_by (Hostname u) (Name m)))
       \<and> (\<forall>i\<in>set (Icons m). \<exists>u. url_Parse ext (Icon_Src i) = Inr u \<and> Scheme u = SchemeHTTPS)"
proof (intro conjI impI ballI)
  assume w: "WebsiteURL m \<noteq> []"
  from assms w have "validateRemoteURLMatchesNamespace ext (WebsiteURL m) (Name m) = None"
    and "validateWebsiteURL ext (WebsiteURL m) = None"
    by (simp_all add: accepted_iff website_match_None)
  then show "\<exists>u. url_Parse ext (WebsiteURL m) = Inr u \<and> Scheme u = SchemeHTTPS \<and> Hostname u \<noteq> []
      \<and> (exempt (Hostname u) \<or> owned_by (Hostname u) (Name m))"
    using w by (auto simp: namespace_match_None validateWebsiteURL_None)
next
  fix r assume "r \<in> set (Remotes m)"
  with assms have "validateRemoteURLMatchesNamespace ext (Transport_URL r) (Name m) = None"
    by (simp add: accepted_iff remotes_match_None)
  then show "\<exists>u. url_Parse ext (Transport_URL r) = Inr u \<and> Hostname u \<noteq> []
      \<and> (exempt (Hostname u) \<or> owned_by (Hostname u) (Name m))"
    by (simp add: namespace_match_None)
next
  fix i assume "i \<in> set (Icons m)"
  with assms have "validateIcon ext i = None"
    by (simp add: accepted_iff validateIcons_None)
  then show "\<exists>u. url_Parse ext (Icon_Src i) = Inr u \<and> Scheme u = SchemeHTTPS"
    by (auto simp: validateIcon_None)
qed

theorem C1_amended_witness:
  "ValidateServerJSON reference example_manifest = None
   \<and> (\<exists>u. url_Parse reference ''https://example.com/docs'' = Inr u \<and> Scheme u = SchemeHTTPS
          \<and> Hostname u \<noteq> [] \<and> (exempt (Hostname u) \<or> owned_by (Hostname u) ''com.example/server''))"
proof -
  note a = example_accepted
  have "WebsiteURL example_manifest = ''https://example.com/docs''"
    "Name example_manifest = ''com.example/server''"
    by (simp_all add: example_manifest_def manifest_def)
  then show ?thesis using a C1_amended[OF a] by simp
qed

text \<open>
  C2. The namespace-ownership check, \<open>validateRemoteURLMatchesNamespace\<close>, on a URL
  that parses: under a name whose namespace is com.example, a hostname example.com or one
  that ends in .example.com passes, and the hostname evil.com fails with the mismatch
  error naming the host and the publisher domain example.com; a hostname localhost, one
  ending in .localhost, or 127.0.0.1 passes under every name, whether or not a domain can
  be extracted from it. \<open>ValidateServerJSON\<close> accepts a manifest only if the check passes
  on every remote transport's url and on a non-empty websiteUrl.
\<close>

theorem C2_namespace_check:
  assumes "url_Parse ext url = Inr u"
  shows "(Hostname u = ''example.com'' \<or> HasSuffix (Hostname u) ''.example.com'' \<longrightarrow>
            validateRemoteURLMatchesNamespace ext url (''com.example/'' @ n) = None)
       \<and> (Hostname u = ''evil.com'' \<longrightarrow>
            validateRemoteURLMatchesNamespace ext url (''com.example/'' @ n)
              = Some (Errorf ''remote URL host %s does not match publisher domain %s''
                        [S ''evil.com'', S ''example.com'']))
       \<and> (Hostname u = ''localhost'' \<or> HasSuffix (Hostname u) ''.localhost''
            \<or> Hostname u = ''127.0.0.1'' \<longrightarrow>
            validateRemoteURLMatchesNamespace ext url namespace = None)
       \<and> (ValidateServerJSON ext m = None \<longrightarrow>
            (\<forall>r\<in>set (Remotes m).
               validateRemoteURLMatchesNamespace ext (Transport_URL r) (Name m) = None)
            \<and> (WebsiteURL m \<noteq> [] \<longrightarrow>
                 validateRemoteURLMatchesNamespace ext (WebsiteURL m) (Name m) = None))"
proof (intro conjI impI)
  define ns where "ns = ''com.example/'' @ n"
  have d: "extractPublisherDomainFromNamespace ns = ''example.com''"
    unfolding ns_def by (rule domain_com_example)
  assume h: "Hostname u = ''example.com'' \<or> HasSuffix (Hostname u) ''.example.com''"
  then have ne: "Hostname u \<noteq> []" by (auto simp: HasSuffix_def)
  from h have "validateRemoteURLMatchesNamespace ext url ns = None"
    using assms ne
    by (auto simp: validateRemoteURLMatchesNamespace_def d isValidHostForDomain_def Let_def)
  then show "validateRemoteURLMatchesNamespace ext url (''com.example/'' @ n) = None"
    unfolding ns_def .
next
  define ns where "ns = ''com.example/'' @ n"
  have d: "extractPublisherDomainFromNamespace ns = ''example.com''"
    unfolding ns_def by (rule domain_com_example)
  assume h: "Hostname u = ''evil.com''"
  have "\<not> HasSuffix ''evil.com'' ''.localhost''" "\<not> HasSuffix ''evil.com'' ''.example.com''"
    by (simp_all add: HasSuffix_def)
  then have "validateRemoteURLMatchesNamespace ext url ns
      = Some (Errorf ''remote URL host %s does not match publisher domain %s''
                [S ''evil.com'', S ''example.com''])"
    using assms h
    by (simp add: validateRemoteURLMatchesNamespace_def d isValidHostForDomain_def Let_def)
  then show "validateRemoteURLMatchesNamespace ext url (''com.example/'' @ n)
      = Some (Errorf ''remote URL host %s does not match publisher domain %s''
                [S ''evil.com'', S ''example.com''])"
    unfolding ns_def .
next
  assume h: "Hostname u = ''localhost'' \<or> HasSuffix (Hostname u) ''.localhost''
      \<or> Hostname u = ''127.0.0.1''"
  then have ne: "Hostname u \<noteq> []" by (auto simp: HasSuffix_def)
  from h show "validateRemoteURLMatchesNamespace ext url namespace = None"
    using assms ne by (auto simp: validateRemoteURLMatchesNamespace_def Let_def)
next
  assume a: "ValidateServerJSON ext m = None"
  then show "\<forall>r\<in>set (Remotes m).
      validateRemoteURLMatchesNamespace ext (Transport_URL r) (Name m) = None"
    by (simp add: accepted_iff remotes_match_None)
next
  assume a: "ValidateServerJSON ext m = None" and w: "WebsiteURL m \<noteq> []"
  then show "validateRemoteURLMatchesNamespace ext (WebsiteURL m) (Name m) = None"
    by (simp add: accepted_iff website_match_None)
qed

theorem C2_namespace_check_witness:
  "(\<exists>u. url_Parse reference ''https://api.example.com/mcp'' = Inr u
        \<and> HasSuffix (Hostname u) ''.example.com'')
   \<and> validateRemoteURLMatchesNamespace reference ''https://api.example.com/mcp'' ''com.example/server'' = None
   \<and> ValidateServerJSON reference (remote_at ''https://api.example.com/mcp'') = None
   \<and> validateRemoteURLMatchesNamespace reference ''https://api.example.com/mcp''
        (Name (remote_at ''https://api.example.com/mcp'')) = None
   \<and> ValidateServerJSON reference (remote_at ''https://evil.com/mcp'')
       = Some (Errorf ''remote URL %s does not match namespace %s: %w''
                 [S ''https://evil.com/mcp'', S ''com.example/server'',
                  W (Errorf ''remote URL host %s does not match publisher domain %s''
                       [S ''evil.com'', S ''example.com''])])"
proof -
  have p: "url_Parse reference ''https://api.example.com/mcp''
      = Inr \<lparr>Scheme = ''https'', Host = ''api.example.com''\<rparr>" by code_simp
  have h: "HasSuffix (Hostname \<lparr>Scheme = ''https'', Host = ''api.example.com''\<rparr>) ''.example.com''"
    by code_simp
  have a: "ValidateServerJSON reference (remote_at ''https://api.example.com/mcp'') = None"
    by code_simp
  have r: "\<lparr>Transport_Type = ''streamable-http'', Transport_URL = ''https://api.example.com/mcp''\<rparr>
      \<in> set (Remotes (remote_at ''https://api.example.com/mcp''))"
    by (simp add: remote_at_def manifest_def)
  have e: "ValidateServerJSON reference (remote_at ''https://evil.com/mcp'')
       = Some (Errorf ''remote URL %s does not match namespace %s: %w''
                 [S ''https://evil.com/mcp'', S ''com.example/server'',
                  W (Errorf ''remote URL host %s does not match publisher domain %s''
                       [S ''evil.com'', S ''example.com''])])"
    by code_simp
  note c = C2_namespace_check[OF p, of "''server''" "''com.example/server''"
      "remote_at ''https://api.example.com/mcp''"]
  from c h have 1: "validateRemoteURLMatchesNamespace reference ''https://api.example.com/mcp''
      ''com.example/server'' = None" by simp
  from c a r have 2: "validateRemoteURLMatchesNamespace reference ''https://api.example.com/mcp''
        (Name (remote_at ''https://api.example.com/mcp'')) = None" by fastforce
  show ?thesis using p h a e 1 2 by simp
qed

text \<open>
  C3, as it is stated, fails: the loop of \<open>fetchFromRegistryAPI\<close> has no guard of its
  own. Against a server that answers every request with a page whose
  \<open>metadata.nextCursor\<close> is not empty, under a context that never expires, the importer
  never returns: \<open>None\<close> is the run that does not end.
\<close>

theorem C3_counterexample:
  "fetchFromRegistryAPI endless_server ''https://registry.example.com/v0/servers'' start = None"
proof -
  have e: "endless endless_server"
    by (simp add: endless_def endless_server_def StatusOK_def)
  show ?thesis
  proof (cases "fetchPages endless_server ''https://registry.example.com/v0/servers'' [] [] start")
    case None
    then show ?thesis by (simp add: fetchFromRegistryAPI_def)
  next
    case (Some y)
    from fetchPages_endless[OF Some] e show ?thesis by contradiction
  qed
qed

text \<open>
  C3, amended. The page-fetch loop returns exactly when its run reaches a final answer: a
  request that cannot be built or that fails (a cancelled or expired context among the
  causes), a status other than 200, a body that cannot be read or decoded, or a page whose
  cursor is absent or empty; and it sends no request after that answer. The importer
  bounds neither the number of pages nor the cursors it follows. What ends a run against
  a server that never ends pagination is the caller's context: when the context expires
  after \<open>n\<close> requests the loop returns, having sent at most one request more, and when
  it never expires the loop never returns.
\<close>

theorem C3_amended:
  "((\<exists>y. fetchFromRegistryAPI io baseURL w = Some y) \<longleftrightarrow> (\<exists>k. returns_at io baseURL (requests w) k))
   \<and> (returns_at io baseURL (requests w) k \<longrightarrow>
        (\<exists>y. fetchFromRegistryAPI io baseURL w = Some y
            \<and> length (requests (snd y)) \<le> length (requests w) + Suc k))
   \<and> (expires io n \<longrightarrow>
        (\<exists>y. fetchFromRegistryAPI io baseURL w = Some y
            \<and> length (requests (snd y)) \<le> Suc (max n (length (requests w)))))
   \<and> (endless io \<longrightarrow> fetchFromRegistryAPI io baseURL w = None)"
proof (intro conjI impI)
  show "(\<exists>y. fetchFromRegistryAPI io baseURL w = Some y) \<longleftrightarrow> (\<exists>k. returns_at io baseURL (requests w) k)"
    unfolding fetchFromRegistryAPI_def returns_at_def
    using fetchPages_only fetchPages_returns by blast
next
  assume "returns_at io baseURL (requests w) k"
  then show "\<exists>y. fetchFromRegistryAPI io baseURL w = Some y
      \<and> length (requests (snd y)) \<le> length (requests w) + Suc k"
    unfolding fetchFromRegistryAPI_def returns_at_def by (rule fetchPages_returns)
next
  assume "expires io n"
  then have "returns_at io baseURL (requests w) (n - length (requests w))"
    by (rule expires_returns)
  then have "\<exists>y. fetchPages io baseURL [] [] w = Some y
      \<and> length (requests (snd y)) \<le> length (requests w) + Suc (n - length (requests w))"
    unfolding returns_at_def by (rule fetchPages_returns)
  then show "\<exists>y. fetchFromRegistryAPI io baseURL w = Some y
      \<and> length (requests (snd y)) \<le> Suc (max n (length (requests w)))"
    unfolding fetchFromRegistryAPI_def by auto
next
  assume e: "endless io"
  show "fetchFromRegistryAPI io baseURL w = None"
  proof (cases "fetchFromRegistryAPI io baseURL w")
    case None
    then show ?thesis .
  next
    case (Some y)
    then obtain k where "returns_at io baseURL (requests w) k"
      unfolding fetchFromRegistryAPI_def returns_at_def using fetchPages_only by blast
    with endless_never[OF e] show ?thesis by blast
  qed
qed

theorem C3_amended_witness:
  "returns_at failing_catalog catalog_url (requests start) 1
   \<and> fetchFromRegistryAPI failing_catalog catalog_url start
       = Some (Inl (Errorf ''failed to fetch page from registry API: %w''
                      [W (Errorf ''HTTP request failed with status: %d'' [D 500])]),
               start\<lparr>requests := [catalog_url, catalog_url @ ''?cursor=A'']\<rparr>)
   \<and> returns_at catalog catalog_url (requests start) 2
   \<and> (\<exists>y. fetchFromRegistryAPI catalog catalog_url start = Some y
          \<and> length (requests (snd y)) \<le> length (requests start) + Suc 2)
   \<and> expires impatient 2
   \<and> (\<exists>y. fetchFromRegistryAPI impatient catalog_url start = Some y
          \<and> length (requests (snd y)) \<le> Suc (max 2 (length (requests start))))
   \<and> endless endless_server
   \<and> fetchFromRegistryAPI endless_server catalog_url start = None"
proof -
  have r: "requests start = []" by (simp add: start_def)
  have a: "returns_at failing_catalog catalog_url (requests start) 1"
    "returns_at catalog catalog_url (requests start) 2"
    unfolding r by code_simp+
  have x: "expires impatient 2" by (simp add: expires_def impatient_def)
  have e: "endless endless_server"
    by (simp add: endless_def endless_server_def StatusOK_def)
  from a x e C3_amended[of catalog catalog_url start 2 2]
    C3_amended[of impatient catalog_url start 0 2]
    C3_amended[of endless_server catalog_url start 0 0]
  show ?thesis using failing_fetch by blast
qed

text \<open>
  C4, as it is stated, fails on the error kinds. An undefined placeholder and a malformed
  URL without placeholders fail with two different messages, but both errors wrap the one
  package-level value \<open>ErrInvalidRemoteURL\<close>: \<open>errors.Is\<close> finds it in each, and the
  validators have no error value of their own for an undefined template variable.
\<close>

theorem C4_counterexample:
  "validatePackageTransport reference templated [''host'']
     = Some (Errorf ''%w: template variables in URL %s reference undefined variables. Available variables: %v''
               [W (Sentinel ErrInvalidRemoteURL), S ''https://example.com/{port}'', V [''host'']])
   \<and> errors_Is (Errorf ''%w: template variables in URL %s reference undefined variables. Available variables: %v''
                  [W (Sentinel ErrInvalidRemoteURL), S ''https://example.com/{port}'', V [''host'']])
        ErrInvalidRemoteURL
   \<and> validatePackageTransport reference malformed [''host'']
     = Some (Errorf ''%w: %s'' [W (Sentinel ErrInvalidRemoteURL), S ''not a url''])
   \<and> errors_Is (Errorf ''%w: %s'' [W (Sentinel ErrInvalidRemoteURL), S ''not a url'']) ErrInvalidRemoteURL"
  by code_simp

text \<open>
  C4, amended. Package transport validation: a stdio transport fails exactly when its url
  is not empty; a streamable-http or sse transport with an empty url fails; with a
  non-empty url it passes exactly when \<open>IsValidTemplatedURL\<close> accepts the url for the
  package's available variables, and it fails otherwise with an error that wraps
  \<open>ErrInvalidRemoteURL\<close> in both cases: when the url holds a placeholder the message
  says that template variables reference undefined variables and lists the available
  variables, and when it holds none the message is the url alone. Any other transport type
  fails as unsupported. The available variables are the names of the environment
  variables and the non-empty names and value hints of the runtime and package arguments.
  With the helpers as the specification describes them, the url
  "https://example.com/{port}" passes exactly when "port" is an available variable.
\<close>

theorem C4_amended:
  "(Transport_Type t = TransportTypeStdio \<longrightarrow>
      validatePackageTransport ext t vars
        = (if Transport_URL t \<noteq> [] then
             Some (Errorf ''url must be empty for %s transport type, got: %s''
                     [S (Transport_Type t), S (Transport_URL t)])
           else None))
   \<and> (Transport_Type t = TransportTypeStreamableHTTP \<or> Transport_Type t = TransportTypeSSE \<longrightarrow>
        (Transport_URL t = [] \<longrightarrow>
           validatePackageTransport ext t vars
             = Some (Errorf ''url is required for %s transport type'' [S (Transport_Type t)]))
        \<and> (Transport_URL t \<noteq> [] \<longrightarrow>
             (validatePackageTransport ext t vars = None
                \<longleftrightarrow> IsValidTemplatedURL ext (Transport_URL t) vars True)
             \<and> (\<not> IsValidTemplatedURL ext (Transport_URL t) vars True
                  \<and> extractTemplateVariables ext (Transport_URL t) \<noteq> [] \<longrightarrow>
                  validatePackageTransport ext t vars
                    = Some (Errorf ''%w: template variables in URL %s reference undefined variables. Available variables: %v''
                              [W (Sentinel ErrInvalidRemoteURL), S (Transport_URL t), V vars]))
             \<and> (\<not> IsValidTemplatedURL ext (Transport_URL t) vars True
                  \<and> extractTemplateVariables ext (Transport_URL t) = [] \<longrightarrow>
                  validatePackageTransport ext t vars
                    = Some (Errorf ''%w: %s'' [W (Sentinel ErrInvalidRemoteURL), S (Transport_URL t)]))
             \<and> (\<forall>err. validatePackageTransport ext t vars = Some err \<longrightarrow>
                        errors_Is err ErrInvalidRemoteURL)))
   \<and> (Transport_Type t \<noteq> TransportTypeStdio \<and> Transport_Type t \<noteq> TransportTypeStreamableHTTP
        \<and> Transport_Type t \<noteq> TransportTypeSSE \<longrightarrow>
        validatePackageTransport ext t vars
          = Some (Errorf ''unsupported transport type: %s'' [S (Transport_Type t)]))
   \<and> set (collectAvailableVariables pkg)
        = Env_Name ` set (EnvironmentVariables pkg)
          \<union> {n. n \<noteq> [] \<and> (\<exists>a\<in>set (RuntimeArguments pkg) \<union> set (PackageArguments pkg).
                                 n = Arg_Name a \<or> n = Arg_ValueHint a)}
   \<and> (validatePackageTransport reference
          \<lparr>Transport_Type = TransportTypeStreamableHTTP,
           Transport_URL = ''https://example.com/{port}''\<rparr> vars = None
        \<longleftrightarrow> ''port'' \<in> set vars)"
proof -
  have types: "TransportTypeStdio \<noteq> TransportTypeStreamableHTTP"
    "TransportTypeStdio \<noteq> TransportTypeSSE"
    by (simp_all add: TransportTypeStdio_def TransportTypeStreamableHTTP_def TransportTypeSSE_def)
  have 1: "Transport_Type t = TransportTypeStdio \<longrightarrow>
      validatePackageTransport ext t vars
        = (if Transport_URL t \<noteq> [] then
             Some (Errorf ''url must be empty for %s transport type, got: %s''
                     [S (Transport_Type t), S (Transport_URL t)])
           else None)"
    by (simp add: validatePackageTransport_def)
  have 2: "Transport_Type t = TransportTypeStreamableHTTP \<or> Transport_Type t = TransportTypeSSE \<longrightarrow>
        (Transport_URL t = [] \<longrightarrow>
           validatePackageTransport ext t vars
             = Some (Errorf ''url is required for %s transport type'' [S (Transport_Type t)]))
        \<and> (Transport_URL t \<noteq> [] \<longrightarrow>
             (validatePackageTransport ext t vars = None
                \<longleftrightarrow> IsValidTemplatedURL ext (Transport_URL t) vars True)
             \<and> (\<not> IsValidTemplatedURL ext (Transport_URL t) vars True
                  \<and> extractTemplateVariables ext (Transport_URL t) \<noteq> [] \<longrightarrow>
                  validatePackageTransport ext t vars
                    = Some (Errorf ''%w: template variables in URL %s reference undefined variables. Available variables: %v''
                              [W (Sentinel ErrInvalidRemoteURL), S (Transport_URL t), V vars]))
             \<and> (\<not> IsValidTemplatedURL ext (Transport_URL t) vars True
                  \<and> extractTemplateVariables ext (Transport_URL t) = [] \<longrightarrow>
                  validatePackageTransport ext t vars
                    = Some (Errorf ''%w: %s'' [W (Sentinel ErrInvalidRemoteURL), S (Transport_URL t)]))
             \<and> (\<forall>err. validatePackageTransport ext t vars = Some err \<longrightarrow>
                        errors_Is err ErrInvalidRemoteURL))"
    using types by (auto simp: validatePackageTransport_def Let_def)
  have 3: "Transport_Type t \<noteq> TransportTypeStdio \<and> Transport_Type t \<noteq> TransportTypeStreamableHTTP
        \<and> Transport_Type t \<noteq> TransportTypeSSE \<longrightarrow>
        validatePackageTransport ext t vars
          = Some (Errorf ''unsupported transport type: %s'' [S (Transport_Type t)])"
    by (simp add: validatePackageTransport_def)
  have 4: "set (collectAvailableVariables pkg)
        = Env_Name ` set (EnvironmentVariables pkg)
          \<union> {n. n \<noteq> [] \<and> (\<exists>a\<in>set (RuntimeArguments pkg) \<union> set (PackageArguments pkg).
                                 n = Arg_Name a \<or> n = Arg_ValueHint a)}"
    by (auto simp: collectAvailableVariables_def set_argumentVariables)
  have v: "syntactically_valid ''https://example.com/{port}''" by code_simp
  have p: "placeholders ''https://example.com/{port}'' = [''port'']" by code_simp
  have "spec_IsValidTemplatedURL ''https://example.com/{port}'' vars True \<longleftrightarrow> ''port'' \<in> set vars"
    unfolding spec_IsValidTemplatedURL_def p using v by simp
  then have 5: "validatePackageTransport reference
          \<lparr>Transport_Type = TransportTypeStreamableHTTP,
           Transport_URL = ''https://example.com/{port}''\<rparr> vars = None
        \<longleftrightarrow> ''port'' \<in> set vars"
    using types by (simp add: validatePackageTransport_def reference_def Let_def)
  from 1 2 3 4 5 show ?thesis by blast
qed

theorem C4_amended_witness:
  "Transport_Type templated = TransportTypeStreamableHTTP \<and> Transport_URL templated \<noteq> []
   \<and> \<not> IsValidTemplatedURL reference (Transport_URL templated) [''host''] True
   \<and> extractTemplateVariables reference (Transport_URL templated) \<noteq> []
   \<and> validatePackageTransport reference templated [''host'']
       = Some (Errorf ''%w: template variables in URL %s reference undefined variables. Available variables: %v''
                 [W (Sentinel ErrInvalidRemoteURL), S (Transport_URL templated), V [''host'']])
   \<and> IsValidTemplatedURL reference (Transport_URL templated) [''host'', ''port''] True
   \<and> validatePackageTransport reference templated [''host'', ''port''] = None"
proof -
  have a: "Transport_Type templated = TransportTypeStreamableHTTP" "Transport_URL templated \<noteq> []"
    "\<not> IsValidTemplatedURL reference (Transport_URL templated) [''host''] True"
    "extractTemplateVariables reference (Transport_URL templated) \<noteq> []"
    "IsValidTemplatedURL reference (Transport_URL templated) [''host'', ''port''] True"
    by code_simp+
  from a C4_amended[of templated reference "[''host'']"]
    C4_amended[of templated reference "[''host'', ''port'']"]
  show ?thesis by blast
qed

text \<open>
  C5, as it is stated, fails on a wildcard in a fourth segment. The pattern of the dotted
  wildcard versions takes two or three segments, so the dotted version 1.2.3.x with the
  wildcard segment x matches none of the four range patterns and is accepted.
\<close>

theorem C5_counterexample:
  "Split ''1.2.3.x'' CHR ''.'' = [''1'', ''2'', ''3'', ''x''] \<and> validateVersion ''1.2.3.x'' = None"
  by code_simp

text \<open>
  C5, amended. Version validation accepts every plain dotted numeric version, the strings
  that match \<open>^\d+(\.\d+){0,3}$\<close>. It rejects the reserved string "latest" with
  \<open>ErrReservedVersionString\<close>; and it rejects with \<open>ErrVersionLooksLikeRange\<close>, the
  offending string quoted in the error, the comparator ranges ^1.2.3, ~1.2.3 and >=1.0.0,
  the hyphen range "1 - 2", the OR range "1.2 || 1.3" and the wildcard versions 1.2.* and
  1.x, as well as every plain version behind one of the comparators ^, ~, >=, <=, >, <, =,
  every two plain versions joined by " - " or by " || ", and every dotted version of two
  or three segments, each a number or one of x, X and *, with a wildcard among them.
\<close>

theorem C5_amended:
  "(MatchString plainVersionRe v \<longrightarrow> validateVersion v = None)
   \<and> validateVersion ''latest'' = Some (Sentinel ErrReservedVersionString)
   \<and> (\<forall>r\<in>set [''^1.2.3'', ''~1.2.3'', ''>=1.0.0'', ''1 - 2'', ''1.2 || 1.3'', ''1.2.*'', ''1.x''].
        validateVersion r = Some (Errorf ''%w: %q'' [W (Sentinel ErrVersionLooksLikeRange), S r]))
   \<and> (MatchString plainVersionRe p \<and> MatchString plainVersionRe q \<longrightarrow>
        (\<forall>op\<in>set [''^'', ''~'', ''>='', ''<='', ''>'', ''<'', ''=''].
           validateVersion (op @ p)
             = Some (Errorf ''%w: %q'' [W (Sentinel ErrVersionLooksLikeRange), S (op @ p)]))
        \<and> validateVersion (p @ '' - '' @ q)
             = Some (Errorf ''%w: %q'' [W (Sentinel ErrVersionLooksLikeRange), S (p @ '' - '' @ q)])
        \<and> validateVersion (p @ '' || '' @ q)
             = Some (Errorf ''%w: %q'' [W (Sentinel ErrVersionLooksLikeRange), S (p @ '' || '' @ q)]))
   \<and> (MatchString wildcardVersionRe d \<and> has_wildcard d \<longrightarrow>
        validateVersion d = Some (Errorf ''%w: %q'' [W (Sentinel ErrVersionLooksLikeRange), S d]))"
proof (intro conjI impI ballI)
  show "validateVersion v = None" if "MatchString plainVersionRe v"
    using that by (rule plain_accepted)
  show "validateVersion ''latest'' = Some (Sentinel ErrReservedVersionString)"
    by (simp add: validateVersion_def)
  show "validateVersion r = Some (Errorf ''%w: %q'' [W (Sentinel ErrVersionLooksLikeRange), S r])"
    if "r \<in> set [''^1.2.3'', ''~1.2.3'', ''>=1.0.0'', ''1 - 2'', ''1.2 || 1.3'', ''1.2.*'', ''1.x'']" for r
  proof -
    have "\<forall>r\<in>set [''^1.2.3'', ''~1.2.3'', ''>=1.0.0'', ''1 - 2'', ''1.2 || 1.3'', ''1.2.*'', ''1.x''].
        validateVersion r = Some (Errorf ''%w: %q'' [W (Sentinel ErrVersionLooksLikeRange), S r])"
      by code_simp
    then show ?thesis using that by blast
  qed
  show "validateVersion d = Some (Errorf ''%w: %q'' [W (Sentinel ErrVersionLooksLikeRange), S d])"
    if "MatchString wildcardVersionRe d \<and> has_wildcard d"
    using that wildcard_family by blast
next
  fix op
  assume "MatchString plainVersionRe p \<and> MatchString plainVersionRe q"
    and "op \<in> set [''^'', ''~'', ''>='', ''<='', ''>'', ''<'', ''='']"
  then show "validateVersion (op @ p)
      = Some (Errorf ''%w: %q'' [W (Sentinel ErrVersionLooksLikeRange), S (op @ p)])"
    using comparator_family by blast
next
  assume "MatchString plainVersionRe p \<and> MatchString plainVersionRe q"
  then show "validateVersion (p @ '' - '' @ q)
      = Some (Errorf ''%w: %q'' [W (Sentinel ErrVersionLooksLikeRange), S (p @ '' - '' @ q)])"
    using hyphen_family by blast
next
  assume "MatchString plainVersionRe p \<and> MatchString plainVersionRe q"
  then show "validateVersion (p @ '' || '' @ q)
      = Some (Errorf ''%w: %q'' [W (Sentinel ErrVersionLooksLikeRange), S (p @ '' || '' @ q)])"
    using or_family by blast
qed

theorem C5_amended_witness:
  "MatchString plainVersionRe ''1.2.3'' \<and> validateVersion ''1.2.3'' = None
   \<and> MatchString plainVersionRe ''2.0'' \<and> validateVersion ''2.0'' = None
   \<and> validateVersion ''1.x'' = Some (Errorf ''%w: %q'' [W (Sentinel ErrVersionLooksLikeRange), S ''1.x''])
   \<and> validateVersion (''<='' @ ''1.2.3'')
       = Some (Errorf ''%w: %q'' [W (Sentinel ErrVersionLooksLikeRange), S (''<='' @ ''1.2.3'')])
   \<and> validateVersion (''1.2.3'' @ '' - '' @ ''2.0'')
       = Some (Errorf ''%w: %q'' [W (Sentinel ErrVersionLooksLikeRange), S (''1.2.3'' @ '' - '' @ ''2.0'')])
   \<and> MatchString wildcardVersionRe ''1.2.X'' \<and> has_wildcard ''1.2.X''
   \<and> validateVersion ''1.2.X'' = Some (Errorf ''%w: %q'' [W (Sentinel ErrVersionLooksLikeRange), S ''1.2.X''])
   \<and> MatchString wildcardVersionRe ''*.7'' \<and> has_wildcard ''*.7''
   \<and> validateVersion ''*.7'' = Some (Errorf ''%w: %q'' [W (Sentinel ErrVersionLooksLikeRange), S ''*.7''])"
proof -
  have m: "MatchString plainVersionRe ''1.2.3''" "MatchString plainVersionRe ''2.0''"
    by code_simp+
  have a: "''1.x'' \<in> set [''^1.2.3'', ''~1.2.3'', ''>=1.0.0'', ''1 - 2'', ''1.2 || 1.3'', ''1.2.*'', ''1.x'']"
    and b: "''<='' \<in> set [''^'', ''~'', ''>='', ''<='', ''>'', ''<'', ''='']"
    by simp_all
  have d: "MatchString wildcardVersionRe ''1.2.X''" "has_wildcard ''1.2.X''"
    "MatchString wildcardVersionRe ''*.7''" "has_wildcard ''*.7''"
    by code_simp+
  from m a b d C5_amended[of "''1.2.3''" "''1.2.3''" "''2.0''" "''1.2.X''"]
    C5_amended[of "''2.0''" "''1.2.3''" "''2.0''" "''*.7''"]
  show ?thesis by blast
qed




text \<open>
  C7. The first page is requested at the source URL itself; every later request is the
  source URL followed by \<open>?cursor=\<close> (or \<open>&cursor=\<close> when the URL already has a query)
  and the \<open>nextCursor\<close> of the page before, byte for byte. When the server answers the
  requests with the pages \<open>ps\<close> in turn, all but the last with a non-empty cursor and the
  last with an absent or empty one, the importer returns the manifests of all pages in
  page order, having sent exactly one request per page, to the URLs \<open>page_urls\<close>
  lists, and nothing after the page whose cursor is absent or empty.
\<close>

theorem C7_pagination:
  "pageURL baseURL [] = baseURL
   \<and> (cursor \<noteq> [] \<longrightarrow>
        pageURL baseURL cursor
          = baseURL @ (if Contains baseURL ''?'' then ''&cursor='' else ''?cursor='') @ cursor)
   \<and> (ps \<noteq> []
        \<and> (\<forall>k<length ps. \<exists>body.
              http io (requests w @ take k (page_urls baseURL [] ps)) (page_urls baseURL [] ps ! k)
                = Response StatusOK (Inr body)
              \<and> Unmarshal_page io body = Inr (ps ! k))
        \<and> (\<forall>p\<in>set (butlast ps). next_cursor p \<noteq> [])
        \<and> next_cursor (last ps) = [] \<longrightarrow>
        fetchFromRegistryAPI io baseURL w
          = Some (Inr (concat (map (\<lambda>p. map Server (Servers p)) ps)),
                  w\<lparr>requests := requests w @ page_urls baseURL [] ps\<rparr>)
        \<and> length (page_urls baseURL [] ps) = length ps)"
proof (intro conjI impI)
  show "pageURL baseURL [] = baseURL" by (simp add: pageURL_def)
  show "pageURL baseURL cursor
      = baseURL @ (if Contains baseURL ''?'' then ''&cursor='' else ''?cursor='') @ cursor"
    if "cursor \<noteq> []" using that by (simp add: pageURL_def)
next
  assume a: "ps \<noteq> []
        \<and> (\<forall>k<length ps. \<exists>body.
              http io (requests w @ take k (page_urls baseURL [] ps)) (page_urls baseURL [] ps ! k)
                = Response StatusOK (Inr body)
              \<and> Unmarshal_page io body = Inr (ps ! k))
        \<and> (\<forall>p\<in>set (butlast ps). next_cursor p \<noteq> [])
        \<and> next_cursor (last ps) = []"
  then show "fetchFromRegistryAPI io baseURL w
          = Some (Inr (concat (map (\<lambda>p. map Server (Servers p)) ps)),
                  w\<lparr>requests := requests w @ page_urls baseURL [] ps\<rparr>)"
    using fetchPages_script[of ps io w baseURL "[]" "[]"]
    by (simp add: fetchFromRegistryAPI_def)
  show "length (page_urls baseURL [] ps) = length ps" by (rule length_page_urls)
qed

theorem C7_pagination_witness:
  "map next_cursor catalog_pages = [''A'', ''B'', []]
   \<and> fetchFromRegistryAPI catalog catalog_url start
       = Some (Inr [manifest ''com.example/alpha'' ''1.0.0'', manifest ''com.example/beta'' ''1.0.0'',
                    manifest ''com.example/gamma'' ''1.0.0'', manifest ''com.example/delta'' ''1.0.0'',
                    manifest ''com.example/epsilon'' ''latest''],
               start\<lparr>requests := [catalog_url, catalog_url @ ''?cursor=A'', catalog_url @ ''?cursor=B'']\<rparr>)
   \<and> length (page_urls catalog_url [] catalog_pages) = 3"
proof -
  have c: "map next_cursor catalog_pages = [''A'', ''B'', []]" by code_simp
  have r: "requests start = []" by (simp add: start_def)
  from C7_pagination[of catalog_url "''A''" catalog_pages catalog start]
    catalog_script catalog_cursors
  have "fetchFromRegistryAPI catalog catalog_url start
          = Some (Inr (concat (map (\<lambda>p. map Server (Servers p)) catalog_pages)),
                  start\<lparr>requests := requests start @ page_urls catalog_url [] catalog_pages\<rparr>)
        \<and> length (page_urls catalog_url [] catalog_pages) = length catalog_pages"
    by blast
  then show ?thesis using c catalog_cursors
    by (simp add: catalog_urls catalog_records r)
qed

text \<open>
  C8. \<open>ValidatePublishRequest\<close> runs the size gate on the publisher-provided extension
  first, then \<open>ValidateServerJSON\<close>, then the registry ownership checks if they are
  enabled, and returns the first error. When the extension serialises to more than 4096
  bytes the call fails with the exceeds-4KB error carrying the size, whatever the rest of
  the manifest is, valid or not; when it serialises to at most 4096 bytes the size gate
  passes.
\<close>

theorem C8_publish_request:
  "ValidatePublishRequest ext req cfg =
     (case validatePublisherExtensions ext req of
        Some err \<Rightarrow> Some err
      | None \<Rightarrow>
          (case ValidateServerJSON ext req of
             Some err \<Rightarrow> Some err
           | None \<Rightarrow>
               if EnableRegistryValidation cfg then
                 first_error
                   (map (\<lambda>(i, pkg).
                           map_option
                             (\<lambda>err. Errorf ''registry validation failed for package %d (%s): %w''
                                       [D i, S (Pkg_Identifier pkg), W err])
                             (ValidatePackage ext pkg (Name req)))
                        (enumerate 0 (Packages req)))
               else None))
   \<and> (Meta req = Some meta \<and> PublisherProvided meta = Some publisherProvided
        \<and> json_Marshal ext publisherProvided = Inr extensionsJSON \<longrightarrow>
        (4096 < length extensionsJSON \<longrightarrow>
           ValidatePublishRequest ext req cfg
             = Some (Errorf ''_meta.io.modelcontextprotocol.registry/publisher-provided extension exceeds 4KB limit (%d bytes)''
                       [D (length extensionsJSON)]))
        \<and> (length extensionsJSON \<le> 4096 \<longrightarrow> validatePublisherExtensions ext req = None))"
proof (intro conjI impI)
  show "ValidatePublishRequest ext req cfg =
     (case validatePublisherExtensions ext req of
        Some err \<Rightarrow> Some err
      | None \<Rightarrow>
          (case ValidateServerJSON ext req of
             Some err \<Rightarrow> Some err
           | None \<Rightarrow>
               if EnableRegistryValidation cfg then
                 first_error
                   (map (\<lambda>(i, pkg).
                           map_option
                             (\<lambda>err. Errorf ''registry validation failed for package %d (%s): %w''
                                       [D i, S (Pkg_Identifier pkg), W err])
                             (ValidatePackage ext pkg (Name req)))
                        (enumerate 0 (Packages req)))
               else None))"
    by (rule publish_order)
next
  assume a: "Meta req = Some meta \<and> PublisherProvided meta = Some publisherProvided
      \<and> json_Marshal ext publisherProvided = Inr extensionsJSON"
    and b: "4096 < length extensionsJSON"
  then have "validatePublisherExtensions ext req
      = Some (Errorf ''_meta.io.modelcontextprotocol.registry/publisher-provided extension exceeds 4KB limit (%d bytes)''
                [D (length extensionsJSON)])"
    by (simp add: validatePublisherExtensions_def maxExtensionSize_def)
  then show "ValidatePublishRequest ext req cfg
      = Some (Errorf ''_meta.io.modelcontextprotocol.registry/publisher-provided extension exceeds 4KB limit (%d bytes)''
                [D (length extensionsJSON)])"
    by (simp add: publish_order)
next
  assume a: "Meta req = Some meta \<and> PublisherProvided meta = Some publisherProvided
      \<and> json_Marshal ext publisherProvided = Inr extensionsJSON"
    and b: "length extensionsJSON \<le> 4096"
  then show "validatePublisherExtensions ext req = None"
    by (simp add: validatePublisherExtensions_def maxExtensionSize_def)
qed

theorem C8_publish_request_witness:
  "length (marshal (JObject [(''note'', JString (replicate 5000 CHR ''x''))])) = 5011
   \<and> ValidateServerJSON reference oversized = Some (Errorf ''$schema field is required'' [])
   \<and> ValidatePublishRequest reference oversized \<lparr>EnableRegistryValidation = False\<rparr>
       = Some (Errorf ''_meta.io.modelcontextprotocol.registry/publisher-provided extension exceeds 4KB limit (%d bytes)''
                 [D 5011])"
proof -
  let ?pp = "[(''note'', JString (replicate 5000 CHR ''x''))]"
  have l: "length (marshal (JObject ?pp)) = 5011" by simp
  have m: "Meta oversized = Some \<lparr>PublisherProvided = Some ?pp\<rparr>
      \<and> PublisherProvided \<lparr>PublisherProvided = Some ?pp\<rparr> = Some ?pp
      \<and> json_Marshal reference ?pp = Inr (marshal (JObject ?pp))"
    by (simp add: oversized_def reference_def)
  have s: "ValidateServerJSON reference oversized = Some (Errorf ''$schema field is required'' [])"
    by (simp add: ValidateServerJSON_def oversized_def)
  have "4096 < length (marshal (JObject ?pp))" unfolding l by simp
  with m C8_publish_request[of reference oversized "\<lparr>EnableRegistryValidation = False\<rparr>"
      "\<lparr>PublisherProvided = Some ?pp\<rparr>" ?pp "marshal (JObject ?pp)"]
  have "ValidatePublishRequest reference oversized \<lparr>EnableRegistryValidation = False\<rparr>
       = Some (Errorf ''_meta.io.modelcontextprotocol.registry/publisher-provided extension exceeds 4KB limit (%d bytes)''
                 [D (length (marshal (JObject ?pp)))])"
    by blast
  then show ?thesis using l s by simp
qed

text \<open>
  C9. The schema gate of \<open>ValidateServerJSON\<close>: an empty schema fails with the
  schema-required error; a non-empty schema that contains none of the supported version
  identifiers fails with the unsupported-version error, which names the schema and the
  supported versions; and a schema that contains one of the supported version identifiers
  as a substring (the identifiers being non-empty strings) passes the gate: the result is
  then that of the remaining checks, in their order.
\<close>

theorem C9_schema_gate:
  "(Schema m = [] \<longrightarrow> ValidateServerJSON ext m = Some (Errorf ''$schema field is required'' []))
   \<and> (Schema m \<noteq> [] \<and> (\<forall>v\<in>set (SupportedSchemaVersions ext). \<not> Contains (Schema m) v) \<longrightarrow>
        ValidateServerJSON ext m
          = Some (Errorf ''schema version %s is not supported. Supported versions: %s''
                    [S (Schema m), S (Join (SupportedSchemaVersions ext) '', '')]))
   \<and> ((\<forall>v\<in>set (SupportedSchemaVersions ext). v \<noteq> [])
        \<and> (\<exists>v\<in>set (SupportedSchemaVersions ext). Contains (Schema m) v) \<longrightarrow>
        ValidateServerJSON ext m
          = first_error
              [(case parseServerName m of Inl err \<Rightarrow> Some err | Inr name \<Rightarrow> None),
               validateVersion (Version m),
               validateRepository ext (Repository m),
               validateWebsiteURL ext (WebsiteURL m),
               validateTitle (Title m),
               validateIcons ext (Icons m),
               first_error (map (validatePackageField ext) (Packages m)),
               first_error (map (validateRemoteTransport ext) (Remotes m)),
               validateRemoteNamespaceMatch ext m,
               validateWebsiteURLNamespaceMatch ext m])"
proof (intro conjI impI)
  assume "Schema m = []"
  then show "ValidateServerJSON ext m = Some (Errorf ''$schema field is required'' [])"
    by (simp add: ValidateServerJSON_def)
next
  assume "Schema m \<noteq> [] \<and> (\<forall>v\<in>set (SupportedSchemaVersions ext). \<not> Contains (Schema m) v)"
  then show "ValidateServerJSON ext m
      = Some (Errorf ''schema version %s is not supported. Supported versions: %s''
                [S (Schema m), S (Join (SupportedSchemaVersions ext) '', '')])"
    by (simp add: ValidateServerJSON_def IsSupported_iff)
next
  assume a: "(\<forall>v\<in>set (SupportedSchemaVersions ext). v \<noteq> [])
      \<and> (\<exists>v\<in>set (SupportedSchemaVersions ext). Contains (Schema m) v)"
  then have "Schema m \<noteq> []" using Contains_nonempty by blast
  with a show "ValidateServerJSON ext m
      = first_error
          [(case parseServerName m of Inl err \<Rightarrow> Some err | Inr name \<Rightarrow> None),
           validateVersion (Version m),
           validateRepository ext (Repository m),
           validateWebsiteURL ext (WebsiteURL m),
           validateTitle (Title m),
           validateIcons ext (Icons m),
           first_error (map (validatePackageField ext) (Packages m)),
           first_error (map (validateRemoteTransport ext) (Remotes m)),
           validateRemoteNamespaceMatch ext m,
           validateWebsiteURLNamespaceMatch ext m]"
    by (simp add: ValidateServerJSON_def IsSupported_iff)
qed

theorem C9_schema_gate_witness:
  "ValidateServerJSON reference ((manifest ''com.example/server'' ''1.0.0'')\<lparr>Schema := []\<rparr>)
     = Some (Errorf ''$schema field is required'' [])
   \<and> ValidateServerJSON reference ((manifest ''com.example/server'' ''1.0.0'')\<lparr>Schema := ''https://example.com/schemas/2024-01-01/server.schema.json''\<rparr>)
     = Some (Errorf ''schema version %s is not supported. Supported versions: %s''
               [S ''https://example.com/schemas/2024-01-01/server.schema.json'', S ''2025-10-17, 2025-09-29''])
   \<and> Contains (Schema (manifest ''com.example/server'' ''1.0.0'')) ''2025-10-17''
   \<and> Schema (manifest ''com.example/server'' ''1.0.0'') \<noteq> ''2025-10-17''
   \<and> ValidateServerJSON reference (manifest ''com.example/server'' ''1.0.0'') = None"
proof -
  let ?m = "manifest ''com.example/server'' ''1.0.0''"
  let ?old = "''https://example.com/schemas/2024-01-01/server.schema.json''"
  have v: "SupportedSchemaVersions reference = [''2025-10-17'', ''2025-09-29'']"
    by (simp add: reference_def)
  have s1: "Schema (?m\<lparr>Schema := []\<rparr>) = []" by simp
  have s2: "Schema (?m\<lparr>Schema := ?old\<rparr>) \<noteq> []
      \<and> (\<forall>v\<in>set (SupportedSchemaVersions reference). \<not> Contains (Schema (?m\<lparr>Schema := ?old\<rparr>)) v)"
    unfolding v by code_simp
  have s3: "Contains (Schema ?m) ''2025-10-17''" "Schema ?m \<noteq> ''2025-10-17''" by code_simp+
  have s4: "(\<forall>v\<in>set (SupportedSchemaVersions reference). v \<noteq> [])
      \<and> (\<exists>v\<in>set (SupportedSchemaVersions reference). Contains (Schema ?m) v)"
    unfolding v using s3 by simp
  have rest: "first_error
              [(case parseServerName ?m of Inl err \<Rightarrow> Some err | Inr name \<Rightarrow> None),
               validateVersion (Version ?m),
               validateRepository reference (Repository ?m),
               validateWebsiteURL reference (WebsiteURL ?m),
               validateTitle (Title ?m),
               validateIcons reference (Icons ?m),
               first_error (map (validatePackageField reference) (Packages ?m)),
               first_error (map (validateRemoteTransport reference) (Remotes ?m)),
               validateRemoteNamespaceMatch reference ?m,
               validateWebsiteURLNamespaceMatch reference ?m] = None"
    by code_simp
  have j: "Join [''2025-10-17'', ''2025-09-29''] '', '' = ''2025-10-17, 2025-09-29''" by simp
  from C9_schema_gate[of "?m\<lparr>Schema := []\<rparr>" reference] s1
  have 1: "ValidateServerJSON reference (?m\<lparr>Schema := []\<rparr>)
      = Some (Errorf ''$schema field is required'' [])" by blast
  from C9_schema_gate[of "?m\<lparr>Schema := ?old\<rparr>" reference] s2
  have 2: "ValidateServerJSON reference (?m\<lparr>Schema := ?old\<rparr>)
     = Some (Errorf ''schema version %s is not supported. Supported versions: %s''
               [S ?old, S ''2025-10-17, 2025-09-29''])"
    unfolding v j by simp
  from C9_schema_gate[of ?m reference] s4 rest
  have 3: "ValidateServerJSON reference ?m = None" by presburger
  show ?thesis using 1 2 3 s3 by blast
qed

text \<open>
  C10. \<open>validateVersion\<close> accepts the empty string, and no other step of
  \<open>ValidateServerJSON\<close> reads the top-level version: a manifest with an empty version
  gets the result it gets with any version that \<open>validateVersion\<close> accepts. Hence an
  accepted manifest is still accepted when its version is replaced by the empty string.
\<close>

theorem C10_empty_version:
  "validateVersion [] = None
   \<and> (validateVersion v = None \<longrightarrow>
        ValidateServerJSON ext (m\<lparr>Version := v\<rparr>) = ValidateServerJSON ext (m\<lparr>Version := []\<rparr>))
   \<and> (ValidateServerJSON ext m = None \<longrightarrow> ValidateServerJSON ext (m\<lparr>Version := []\<rparr>) = None)"
proof (intro conjI impI)
  show "validateVersion [] = None" by code_simp
  show "ValidateServerJSON ext (m\<lparr>Version := v\<rparr>) = ValidateServerJSON ext (m\<lparr>Version := []\<rparr>)"
    if "validateVersion v = None" using that by (rule version_frame)
  assume a: "ValidateServerJSON ext m = None"
  then have "validateVersion (Version m) = None" by (simp add: accepted_iff)
  then have "ValidateServerJSON ext (m\<lparr>Version := Version m\<rparr>)
      = ValidateServerJSON ext (m\<lparr>Version := []\<rparr>)" by (rule version_frame)
  then show "ValidateServerJSON ext (m\<lparr>Version := []\<rparr>) = None" using a by simp
qed

theorem C10_empty_version_witness:
  "validateVersion ''1.0.0'' = None
   \<and> ValidateServerJSON reference example_manifest = None
   \<and> ValidateServerJSON reference (example_manifest\<lparr>Version := []\<rparr>) = None"
proof -
  note a = example_accepted
  have b: "validateVersion ''1.0.0'' = None" by code_simp
  from C10_empty_version[of "''1.0.0''" reference example_manifest] a b
  show ?thesis by blast
qed

end
